theory Spec2Isabelle
  imports Main "HOL-Library.Word"
begin

section \<open>JavaScript values\<close>

text \<open>
  The cart client of \<^verbatim>\<open>assets/global.js\<close> is JavaScript: its strings are sequences of
  UTF-16 code units, its objects are ordered collections of string-keyed properties, and
  every argument may be any value. A number is an integer from \<open>-2^53\<close> to \<open>2^53 - 1\<close>
  (quantities, line numbers, variant ids), held in a 54-bit word read by \<open>sint\<close>: in that
  range every integer is a JavaScript number and prints as its decimal digits. The program
  does no arithmetic on numbers. Fractional and larger numbers, functions and symbols are
  outside the model; every object is a plain object whose prototype is
  \<^verbatim>\<open>Object.prototype\<close>.
\<close>

type_synonym jstring = "16 word list"

definition js :: "string \<Rightarrow> jstring" where
  "js s = map (\<lambda>c. of_nat (of_char c)) s"

datatype jsval =
    JUndefined
  | JNull
  | JBool bool
  | JNum "54 word"
  | JStr jstring
  | JArr "jsval list"
  | JObj "(jstring \<times> jsval) list"

datatype js_error =
    Error jstring
  | TypeError jstring
  | SyntaxError jstring
  | URIError jstring

text \<open>\<^verbatim>\<open>ToBoolean\<close>: what \<^verbatim>\<open>if (x)\<close> and \<^verbatim>\<open>x && y\<close> test.\<close>

fun ToBoolean :: "jsval \<Rightarrow> bool" where
  "ToBoolean JUndefined = False"
| "ToBoolean JNull = False"
| "ToBoolean (JBool b) = b"
| "ToBoolean (JNum n) = (n \<noteq> 0)"
| "ToBoolean (JStr s) = (s \<noteq> [])"
| "ToBoolean (JArr xs) = True"
| "ToBoolean (JObj ps) = True"

subsection \<open>Numbers to strings\<close>

text \<open>The decimal digits of a natural number.\<close>

definition digit :: "nat \<Rightarrow> 16 word" where
  "digit d = of_nat (48 + d)"

function digits :: "nat \<Rightarrow> jstring" where
  "digits n = (if n < 10 then [digit n] else digits (n div 10) @ [digit (n mod 10)])"
  by pat_completeness auto
termination
  by (relation "measure id") auto

declare digits.simps [simp del]

text \<open>
  \<^verbatim>\<open>Number::toString\<close> on the numbers of the model: the decimal digits of the integer,
  with a minus sign when it is negative.
\<close>

definition NumberToString :: "54 word \<Rightarrow> jstring" where
  "NumberToString n =
     (if sint n < 0 then js ''-'' @ digits (nat (- sint n)) else digits (nat (sint n)))"

fun join :: "jstring \<Rightarrow> jstring list \<Rightarrow> jstring" where
  "join sep [] = []"
| "join sep [s] = s"
| "join sep (s # t # ss) = s @ sep @ join sep (t # ss)"

text \<open>The results of a list of steps run from left to right: the first error ends the run.\<close>

fun collect :: "(js_error + 'a) list \<Rightarrow> js_error + 'a list" where
  "collect [] = Inr []"
| "collect (r # rs) =
     (case r of
        Inl e \<Rightarrow> Inl e
      | Inr x \<Rightarrow> (case collect rs of Inl e \<Rightarrow> Inl e | Inr xs \<Rightarrow> Inr (x # xs)))"

definition not_primitive :: js_error where
  "not_primitive = TypeError (js ''Cannot convert object to primitive value'')"

text \<open>
  \<^verbatim>\<open>ToString\<close>. An array prints as its elements joined by commas, with \<^verbatim>\<open>undefined\<close>
  and \<^verbatim>\<open>null\<close> elements printed as nothing. A plain object prints as
  \<^verbatim>\<open>[object Object]\<close> through the inherited \<^verbatim>\<open>toString\<close>; an own property named
  \<^verbatim>\<open>toString\<close> hides that method and, no value of the model being callable, the
  conversion then throws \<^verbatim>\<open>TypeError\<close> (the inherited \<^verbatim>\<open>valueOf\<close> returns the object
  itself, an own \<^verbatim>\<open>valueOf\<close> is not callable either).
\<close>

fun ToString :: "jsval \<Rightarrow> js_error + jstring" where
  "ToString JUndefined = Inr (js ''undefined'')"
| "ToString JNull = Inr (js ''null'')"
| "ToString (JBool b) = Inr (if b then js ''true'' else js ''false'')"
| "ToString (JNum n) = Inr (NumberToString n)"
| "ToString (JStr s) = Inr s"
| "ToString (JArr xs) =
     (case collect (map (\<lambda>x. case x of JUndefined \<Rightarrow> Inr [] | JNull \<Rightarrow> Inr []
                                      | _ \<Rightarrow> ToString x) xs) of
        Inl e \<Rightarrow> Inl e
      | Inr ss \<Rightarrow> Inr (join (js '','') ss))"
| "ToString (JObj ps) =
     (if js ''toString'' \<in> set (map fst ps) then Inl not_primitive
      else Inr (js ''[object Object]''))"

section \<open>encodeURIComponent\<close>

text \<open>
  The built-in follows ECMAScript's \<^verbatim>\<open>Encode(string, "")\<close>: a code unit of the
  unescaped set is copied; any other is read as a code point (a surrogate pair is one code
  point), written in UTF-8, and each octet becomes \<^verbatim>\<open>%XX\<close> in upper-case hexadecimal.
  A surrogate without its partner raises \<^verbatim>\<open>URIError\<close>.
\<close>

definition uriUnescaped :: "16 word \<Rightarrow> bool" where
  "uriUnescaped c \<longleftrightarrow>
     (0x41 \<le> c \<and> c \<le> 0x5A) \<or> (0x61 \<le> c \<and> c \<le> 0x7A) \<or> (0x30 \<le> c \<and> c \<le> 0x39) \<or>
     c \<in> {0x5F, 0x2D, 0x2E, 0x21, 0x7E, 0x2A, 0x27, 0x28, 0x29}"

definition is_leading_surrogate :: "16 word \<Rightarrow> bool" where
  "is_leading_surrogate c \<longleftrightarrow> 0xD800 \<le> c \<and> c \<le> 0xDBFF"

definition is_trailing_surrogate :: "16 word \<Rightarrow> bool" where
  "is_trailing_surrogate c \<longleftrightarrow> 0xDC00 \<le> c \<and> c \<le> 0xDFFF"

definition UTF16SurrogatePairToCodePoint :: "16 word \<Rightarrow> 16 word \<Rightarrow> nat" where
  "UTF16SurrogatePairToCodePoint lead trail =
     (unat lead - 0xD800) * 0x400 + (unat trail - 0xDC00) + 0x10000"

definition utf8 :: "nat \<Rightarrow> nat list" where
  "utf8 cp =
     (if cp < 0x80 then [cp]
      else if cp < 0x800 then [0xC0 + cp div 64, 0x80 + cp mod 64]
      else if cp < 0x10000 then [0xE0 + cp div 4096, 0x80 + cp div 64 mod 64, 0x80 + cp mod 64]
      else [0xF0 + cp div 262144, 0x80 + cp div 4096 mod 64, 0x80 + cp div 64 mod 64,
            0x80 + cp mod 64])"

definition hexdigit :: "nat \<Rightarrow> 16 word" where
  "hexdigit d = (if d < 10 then of_nat (48 + d) else of_nat (55 + d))"

definition percent :: "nat \<Rightarrow> jstring" where
  "percent octet = [0x25, hexdigit (octet div 16), hexdigit (octet mod 16)]"

definition escape :: "nat \<Rightarrow> jstring" where
  "escape cp = concat (map percent (utf8 cp))"

definition uri_malformed :: js_error where
  "uri_malformed = URIError (js ''URI malformed'')"

fun Encode :: "jstring \<Rightarrow> js_error + jstring" where
  "Encode [] = Inr []"
| "Encode (c # cs) =
     (if uriUnescaped c then
        (case Encode cs of Inl e \<Rightarrow> Inl e | Inr r \<Rightarrow> Inr (c # r))
      else if \<not> is_leading_surrogate c \<and> \<not> is_trailing_surrogate c then
        (case Encode cs of Inl e \<Rightarrow> Inl e | Inr r \<Rightarrow> Inr (escape (unat c) @ r))
      else if is_trailing_surrogate c then Inl uri_malformed
      else
        (case cs of
           [] \<Rightarrow> Inl uri_malformed
         | d # ds \<Rightarrow>
             if \<not> is_trailing_surrogate d then Inl uri_malformed
             else
               (case Encode ds of
                  Inl e \<Rightarrow> Inl e
                | Inr r \<Rightarrow> Inr (escape (UTF16SurrogatePairToCodePoint c d) @ r))))"

definition encodeURIComponent :: "jsval \<Rightarrow> js_error + jstring" where
  "encodeURIComponent v = (case ToString v of Inl e \<Rightarrow> Inl e | Inr s \<Rightarrow> Encode s)"

section \<open>Objects\<close>

text \<open>
  An object is the list of its own enumerable properties in the order
  \<^verbatim>\<open>Object.entries\<close>, \<^verbatim>\<open>Object.keys\<close>, spread and \<^verbatim>\<open>JSON.stringify\<close> visit them:
  array-index keys first, in ascending numeric order, then every other key in the order of
  creation.
\<close>

type_synonym props = "(jstring \<times> jsval) list"

definition is_digit :: "16 word \<Rightarrow> bool" where
  "is_digit c \<longleftrightarrow> 0x30 \<le> c \<and> c \<le> 0x39"

definition decimal_value :: "jstring \<Rightarrow> nat" where
  "decimal_value s = foldl (\<lambda>n c. 10 * n + (unat c - 48)) 0 s"

text \<open>An array index is the canonical decimal form of an integer below \<open>2^32 - 1\<close>.\<close>

definition array_index :: "jstring \<Rightarrow> nat option" where
  "array_index k =
     (if k \<noteq> [] \<and> list_all is_digit k \<and> (hd k \<noteq> 0x30 \<or> length k = 1) \<and>
         decimal_value k < 4294967295
      then Some (decimal_value k) else None)"

fun overwrite :: "jstring \<Rightarrow> jsval \<Rightarrow> props \<Rightarrow> props" where
  "overwrite k v [] = []"
| "overwrite k v ((k', v') # ps) =
     (if k' = k then (k, v) # ps else (k', v') # overwrite k v ps)"

fun insert_index :: "nat \<Rightarrow> jstring \<Rightarrow> jsval \<Rightarrow> props \<Rightarrow> props" where
  "insert_index i k v [] = [(k, v)]"
| "insert_index i k v ((k', v') # ps) =
     (case array_index k' of
        Some j \<Rightarrow> if j < i then (k', v') # insert_index i k v ps else (k, v) # (k', v') # ps
      | None \<Rightarrow> (k, v) # (k', v') # ps)"

text \<open>
  Defining a property: an existing key keeps its place and takes the new value; a new
  array-index key goes to its numeric position; any other new key goes last.
\<close>

definition set_property :: "jstring \<Rightarrow> jsval \<Rightarrow> props \<Rightarrow> props" where
  "set_property k v ps =
     (if k \<in> set (map fst ps) then overwrite k v ps
      else case array_index k of
             Some i \<Rightarrow> insert_index i k v ps
           | None \<Rightarrow> ps @ [(k, v)])"

text \<open>The own enumerable string-keyed properties of a value turned into an object.\<close>

fun own_properties :: "jsval \<Rightarrow> props" where
  "own_properties (JObj ps) = ps"
| "own_properties (JArr xs) = zip (map digits [0..<length xs]) xs"
| "own_properties (JStr s) = zip (map digits [0..<length s]) (map (\<lambda>c. JStr [c]) s)"
| "own_properties v = []"

definition not_an_object :: js_error where
  "not_an_object = TypeError (js ''Cannot convert undefined or null to object'')"

definition Object_entries :: "jsval \<Rightarrow> js_error + props" where
  "Object_entries v =
     (if v = JUndefined \<or> v = JNull then Inl not_an_object else Inr (own_properties v))"

definition Object_keys :: "jsval \<Rightarrow> js_error + jstring list" where
  "Object_keys v =
     (if v = JUndefined \<or> v = JNull then Inl not_an_object
      else Inr (map fst (own_properties v)))"

definition Object_fromEntries :: "props \<Rightarrow> props" where
  "Object_fromEntries es = fold (\<lambda>(k, v). set_property k v) es []"

text \<open>
  Spread inside an object literal, \<^verbatim>\<open>{...v}\<close>: copies the own properties of \<open>v\<close>;
  \<^verbatim>\<open>undefined\<close>, \<^verbatim>\<open>null\<close>, booleans and numbers contribute nothing.
\<close>

definition spread :: "jsval \<Rightarrow> props \<Rightarrow> props" where
  "spread v ps = fold (\<lambda>(k, x). set_property k x) (own_properties v) ps"

text \<open>
  \<^verbatim>\<open>JSON.stringify\<close>, up to the concrete text: the result is the JSON document as a
  value. A property whose value is \<^verbatim>\<open>undefined\<close> is left out, an \<^verbatim>\<open>undefined\<close> array
  element becomes \<^verbatim>\<open>null\<close>, and \<^verbatim>\<open>undefined\<close> itself has no JSON text.
\<close>

fun JSON_stringify :: "jsval \<Rightarrow> jsval option" where
  "JSON_stringify JUndefined = None"
| "JSON_stringify (JArr xs) =
     Some (JArr (map (\<lambda>x. case JSON_stringify x of None \<Rightarrow> JNull | Some y \<Rightarrow> y) xs))"
| "JSON_stringify (JObj ps) =
     Some (JObj (concat (map (\<lambda>(k, x). case JSON_stringify x of None \<Rightarrow> [] | Some y \<Rightarrow> [(k, y)])
                        ps)))"
| "JSON_stringify v = Some v"

section \<open>Request payloads\<close>

definition default_param :: "jsval \<Rightarrow> jsval \<Rightarrow> jsval" where
  "default_param d v = (if v = JUndefined then d else v)"

text \<open>
  \<^verbatim>\<open>Object.entries(o).map(([k, v]) => [encodeURIComponent(k), encodeURIComponent(v)])\<close>:
  the first encoding that throws ends the whole map.
\<close>

fun encode_entries :: "props \<Rightarrow> js_error + props" where
  "encode_entries [] = Inr []"
| "encode_entries ((k, v) # es) =
     (case encodeURIComponent (JStr k) of
        Inl e \<Rightarrow> Inl e
      | Inr k' \<Rightarrow>
          (case encodeURIComponent v of
             Inl e \<Rightarrow> Inl e
           | Inr v' \<Rightarrow>
               (case encode_entries es of
                  Inl e \<Rightarrow> Inl e
                | Inr es' \<Rightarrow> Inr ((k', JStr v') # es'))))"

text \<open>
  \<^verbatim>\<open>Object.keys(o).length > 0 && { name: Object.fromEntries(... encoded entries ...) }\<close>,
  the operand of the spread for attributes (updateCart) and properties (changeCartItem).
\<close>

definition encoded_part :: "jstring \<Rightarrow> jsval \<Rightarrow> js_error + jsval" where
  "encoded_part name obj =
     (case Object_keys obj of
        Inl e \<Rightarrow> Inl e
      | Inr ks \<Rightarrow>
          if length ks > 0 then
            (case Object_entries obj of
               Inl e \<Rightarrow> Inl e
             | Inr es \<Rightarrow>
                 (case encode_entries es of
                    Inl e \<Rightarrow> Inl e
                  | Inr es' \<Rightarrow> Inr (JObj [(name, JObj (Object_fromEntries es'))])))
          else Inr (JBool False))"

text \<open>Lines 40 to 51 of \<^verbatim>\<open>updateCart\<close>: the object handed to \<^verbatim>\<open>JSON.stringify\<close>.\<close>

definition updatesPayload :: "jsval \<Rightarrow> jsval \<Rightarrow> js_error + jsval" where
  "updatesPayload updates useLineNumbers =
     (if ToBoolean useLineNumbers then
        (case Object_entries updates of
           Inl e \<Rightarrow> Inl e
         | Inr es \<Rightarrow>
             Inr (JObj [(js ''updates'',
                         JObj (Object_fromEntries (map (\<lambda>(lineNumber, qty). (lineNumber, qty)) es)))]))
      else Inr (JObj [(js ''updates'', updates)]))"

definition note_part :: "jsval \<Rightarrow> js_error + jsval" where
  "note_part note =
     (if ToBoolean note then
        (case encodeURIComponent note of
           Inl e \<Rightarrow> Inl e
         | Inr n \<Rightarrow> Inr (JObj [(js ''note'', JStr n)]))
      else Inr note)"

definition updateCart_requestData :: "jsval \<Rightarrow> jsval \<Rightarrow> jsval \<Rightarrow> jsval \<Rightarrow> js_error + jsval" where
  "updateCart_requestData updates useLineNumbers0 note0 attributes0 =
     (let useLineNumbers = default_param (JBool False) useLineNumbers0;
          note = default_param (JStr []) note0;
          attributes = default_param (JObj []) attributes0
      in case updatesPayload updates useLineNumbers of
           Inl e \<Rightarrow> Inl e
         | Inr up \<Rightarrow>
             (case note_part note of
                Inl e \<Rightarrow> Inl e
              | Inr np \<Rightarrow>
                  (case encoded_part (js ''attributes'') attributes of
                     Inl e \<Rightarrow> Inl e
                   | Inr ap \<Rightarrow> Inr (JObj (spread ap (spread np (spread up [])))))))"

text \<open>Lines 84 to 89 of \<^verbatim>\<open>changeCartItem\<close>.\<close>

definition selling_plan_part :: "jsval \<Rightarrow> jsval" where
  "selling_plan_part sellingPlan =
     (if ToBoolean sellingPlan then JObj [(js ''selling_plan'', sellingPlan)] else sellingPlan)"

definition changeCartItem_requestData ::
  "jsval \<Rightarrow> jsval \<Rightarrow> jsval \<Rightarrow> jsval \<Rightarrow> jsval \<Rightarrow> js_error + jsval" where
  "changeCartItem_requestData lineOrId quantity useLine0 properties0 sellingPlan0 =
     (let useLine = default_param (JBool False) useLine0;
          properties = default_param (JObj []) properties0;
          sellingPlan = default_param JNull sellingPlan0;
          locator = (if ToBoolean useLine then JObj [(js ''line'', lineOrId)]
                     else JObj [(js ''id'', lineOrId)])
      in case encoded_part (js ''properties'') properties of
           Inl e \<Rightarrow> Inl e
         | Inr pp \<Rightarrow>
             Inr (JObj (spread (selling_plan_part sellingPlan)
                         (spread pp (set_property (js ''quantity'') quantity (spread locator []))))))"

section \<open>The network, promises and the console\<close>

text \<open>
  A promise settles in one of two ways or stays pending for ever. The platform and the
  network between the browser and it are a state of an arbitrary type \<open>'p\<close> and a
  function answering each request from that state; the world also records every request
  issued and every line written with \<^verbatim>\<open>console.error\<close>.
\<close>

datatype 'a outcome = Fulfilled 'a | Rejected js_error | Pending

record request =
  url :: string
  http_method :: string
  headers :: "(string \<times> string) list"
  body :: "jsval option"

record response =
  status :: "16 word"
  json_body :: "jsval outcome"
  text_body :: "jstring outcome"

text \<open>
  \<^verbatim>\<open>response.status\<close> is an unsigned 16-bit number; \<^verbatim>\<open>response.ok\<close> is true for the
  statuses 200 to 299.
\<close>

definition ok :: "response \<Rightarrow> bool" where
  "ok r \<longleftrightarrow> 200 \<le> status r \<and> status r \<le> 299"

record 'p world =
  platform :: 'p
  requests :: "request list"
  console :: "(string \<times> js_error) list"

type_synonym 'p network = "'p \<Rightarrow> request \<Rightarrow> response outcome \<times> 'p"

type_synonym ('p, 'a) async = "'p world \<Rightarrow> 'a outcome \<times> 'p world"

definition fetch :: "'p network \<Rightarrow> request \<Rightarrow> ('p, response) async" where
  "fetch net req w =
     (case net (platform w) req of
        (r, p') \<Rightarrow> (r, w\<lparr>platform := p', requests := requests w @ [req]\<rparr>))"

definition return :: "'a \<Rightarrow> ('p, 'a) async" where
  "return x w = (Fulfilled x, w)"

definition throw :: "js_error \<Rightarrow> ('p, 'a) async" where
  "throw e w = (Rejected e, w)"

definition settled :: "'a outcome \<Rightarrow> ('p, 'a) async" where
  "settled r w = (r, w)"

definition of_result :: "js_error + 'a \<Rightarrow> ('p, 'a) async" where
  "of_result r = (case r of Inl e \<Rightarrow> throw e | Inr x \<Rightarrow> return x)"

text \<open>
  \<^verbatim>\<open>const x = await m; k(x)\<close>: the rest runs only when \<open>m\<close> is fulfilled; a rejection
  is thrown at the \<^verbatim>\<open>await\<close>, and nothing runs after a promise that never settles.
\<close>

definition await :: "('p, 'a) async \<Rightarrow> ('a \<Rightarrow> ('p, 'b) async) \<Rightarrow> ('p, 'b) async" where
  "await m k w =
     (case m w of
        (Fulfilled x, w') \<Rightarrow> k x w'
      | (Rejected e, w') \<Rightarrow> (Rejected e, w')
      | (Pending, w') \<Rightarrow> (Pending, w'))"

definition try_catch ::
  "('p, 'a) async \<Rightarrow> (js_error \<Rightarrow> ('p, 'a) async) \<Rightarrow> ('p, 'a) async" where
  "try_catch m handler w =
     (case m w of
        (Rejected e, w') \<Rightarrow> handler e w'
      | (r, w') \<Rightarrow> (r, w'))"

definition console_error :: "string \<Rightarrow> js_error \<Rightarrow> 'p world \<Rightarrow> 'p world" where
  "console_error label e w = w\<lparr>console := console w @ [(label, e)]\<rparr>"

text \<open>The body of every \<^verbatim>\<open>catch\<close> block of the file.\<close>

definition log_and_rethrow :: "string \<Rightarrow> js_error \<Rightarrow> ('p, 'a) async" where
  "log_and_rethrow label e w = (Rejected e, console_error label e w)"

text \<open>
  \<^verbatim>\<open>new Error(`HTTP error! status: ${response.status}`)\<close>; the status, a number from 0
  to 65535, prints as its decimal digits.
\<close>

definition http_error :: "response \<Rightarrow> js_error" where
  "http_error r = Error (js ''HTTP error! status: '' @ digits (unat (status r)))"

definition json_headers :: "(string \<times> string) list" where
  "json_headers = [(''Content-Type'', ''application/json'')]"

section \<open>The cart operations\<close>

text \<open>\<open>root\<close> stands for \<^verbatim>\<open>window.Shopify.routes.root\<close>.\<close>

text \<open>\<^verbatim>\<open>fetch(url)\<close> with no options is a \<^verbatim>\<open>GET\<close> with no headers and no body.\<close>

definition cart_request :: "string \<Rightarrow> request" where
  "cart_request root =
     \<lparr>url = root @ ''cart.js'', http_method = ''GET'', headers = [], body = None\<rparr>"

definition fetchCart :: "'p network \<Rightarrow> string \<Rightarrow> ('p, jsval) async" where
  "fetchCart net root =
     try_catch
       (await (fetch net (cart_request root)) (\<lambda>response.
        await (settled (json_body response)) (\<lambda>cart.
        return cart)))
       (log_and_rethrow ''Error fetching cart:'')"

definition update_request :: "string \<Rightarrow> jsval \<Rightarrow> request" where
  "update_request root requestData =
     \<lparr>url = root @ ''cart/update.js'', http_method = ''POST'', headers = json_headers,
      body = JSON_stringify requestData\<rparr>"

definition updateCart ::
  "'p network \<Rightarrow> string \<Rightarrow> jsval \<Rightarrow> jsval \<Rightarrow> jsval \<Rightarrow> jsval \<Rightarrow> ('p, jsval) async" where
  "updateCart net root updates useLineNumbers note attributes =
     try_catch
       (await (of_result (updateCart_requestData updates useLineNumbers note attributes))
          (\<lambda>requestData.
        await (fetch net (update_request root requestData)) (\<lambda>response.
        if \<not> ok response then throw (http_error response)
        else await (settled (json_body response)) return)))
       (log_and_rethrow ''Error updating cart:'')"

definition change_request :: "string \<Rightarrow> jsval \<Rightarrow> request" where
  "change_request root requestData =
     \<lparr>url = root @ ''cart/change.js'', http_method = ''POST'', headers = json_headers,
      body = JSON_stringify requestData\<rparr>"

definition changeCartItem ::
  "'p network \<Rightarrow> string \<Rightarrow> jsval \<Rightarrow> jsval \<Rightarrow> jsval \<Rightarrow> jsval \<Rightarrow> jsval \<Rightarrow> ('p, jsval) async"
  where
  "changeCartItem net root lineOrId quantity useLine properties sellingPlan =
     try_catch
       (await (of_result (changeCartItem_requestData lineOrId quantity useLine properties
                            sellingPlan))
          (\<lambda>requestData.
        await (fetch net (change_request root requestData)) (\<lambda>response.
        if \<not> ok response then throw (http_error response)
        else await (settled (json_body response)) return)))
       (log_and_rethrow ''Error changing cart item:'')"

definition add_request :: "string \<Rightarrow> jsval \<Rightarrow> request" where
  "add_request root items =
     \<lparr>url = root @ ''cart/add.js'', http_method = ''POST'', headers = json_headers,
      body = JSON_stringify (JObj [(js ''items'', items)])\<rparr>"

definition addToCart :: "'p network \<Rightarrow> string \<Rightarrow> jsval \<Rightarrow> ('p, jsval) async" where
  "addToCart net root items =
     try_catch
       (await (fetch net (add_request root items)) (\<lambda>response.
        if \<not> ok response then throw (http_error response)
        else await (fetchCart net root) return))
       (log_and_rethrow ''Error adding item to cart:'')"

definition clear_request :: "string \<Rightarrow> request" where
  "clear_request root =
     \<lparr>url = root @ ''cart/clear.js'', http_method = ''POST'', headers = json_headers, body = None\<rparr>"

definition clearCart :: "'p network \<Rightarrow> string \<Rightarrow> ('p, jsval) async" where
  "clearCart net root =
     try_catch
       (await (fetch net (clear_request root)) (\<lambda>response.
        if \<not> ok response then throw (http_error response)
        else await (fetchCart net root) return))
       (log_and_rethrow ''Error clearing cart:'')"

definition prepare_request :: "string \<Rightarrow> request" where
  "prepare_request root =
     \<lparr>url = root @ ''cart/prepare_shipping_rates.json'', http_method = ''POST'', headers = [],
      body = None\<rparr>"

definition prepareShippingRates :: "'p network \<Rightarrow> string \<Rightarrow> ('p, jsval) async" where
  "prepareShippingRates net root =
     try_catch
       (await (fetch net (prepare_request root)) (\<lambda>response.
        if \<not> ok response then throw (http_error response)
        else await (settled (text_body response)) (\<lambda>text. return (JStr text))))
       (log_and_rethrow ''Error preparing shipping rates:'')"

definition rates_request :: "string \<Rightarrow> request" where
  "rates_request root =
     \<lparr>url = root @ ''cart/async_shipping_rates.json'', http_method = ''GET'', headers = [],
      body = None\<rparr>"

definition fetchShippingRates :: "'p network \<Rightarrow> string \<Rightarrow> ('p, jsval) async" where
  "fetchShippingRates net root =
     try_catch
       (await (fetch net (rates_request root)) (\<lambda>response.
        if \<not> ok response then throw (http_error response)
        else await (settled (json_body response)) return))
       (log_and_rethrow ''Error fetching shipping rates:'')"

text \<open>
  A network that answers from a script: each request takes the next scripted outcome, and
  a request beyond the script is never answered.
\<close>

definition scripted :: "response outcome list network" where
  "scripted tape req = (case tape of [] \<Rightarrow> (Pending, []) | r # rs \<Rightarrow> (r, rs))"

definition start :: "'p \<Rightarrow> 'p world" where
  "start p = \<lparr>platform = p, requests = [], console = []\<rparr>"

text \<open>A response with status \<open>s\<close> whose body is the JSON text \<^verbatim>\<open>{}\<close>.\<close>

definition json_response :: "16 word \<Rightarrow> response" where
  "json_response s =
     \<lparr>status = s, json_body = Fulfilled (JObj []), text_body = Fulfilled (js ''{}'')\<rparr>"

text \<open>A response with status 200 carrying a cart with one item.\<close>

definition cart_response :: response where
  \<open>cart_response =
     \<lparr>status = 200, json_body = Fulfilled (JObj [(js ''item_count'', JNum 1)]),
      text_body = Fulfilled (js ''{"item_count":1}'')\<rparr>\<close>

text \<open>The world once \<open>req\<close> has been sent and the platform has moved to \<open>p'\<close>.\<close>

definition after_request :: "request \<Rightarrow> 'p \<Rightarrow> 'p world \<Rightarrow> 'p world" where
  "after_request req p' w = w\<lparr>platform := p', requests := requests w @ [req]\<rparr>"

section \<open>Invariants and observations used in the statements\<close>

text \<open>
  The order in which an engine keeps the keys of an object: \<open>key_before k k'\<close> says that
  \<open>k\<close> may stand before \<open>k'\<close>. Every object a JavaScript program can build satisfies
  \<open>wf_props\<close>: its keys are distinct and in that order.
\<close>

definition key_before :: "jstring \<Rightarrow> jstring \<Rightarrow> bool" where
  "key_before k k' =
     (case array_index k of
        Some i \<Rightarrow> (case array_index k' of Some j \<Rightarrow> i < j | None \<Rightarrow> True)
      | None \<Rightarrow> array_index k' = None)"

definition wf_props :: "props \<Rightarrow> bool" where
  "wf_props ps \<longleftrightarrow> distinct (map fst ps) \<and> sorted_wrt key_before (map fst ps)"

text \<open>Looking a key up in a request body; \<open>None\<close> when the body has no such key.\<close>

definition payload_field :: "jsval option \<Rightarrow> jstring \<Rightarrow> jsval option" where
  "payload_field b k = (case b of Some (JObj ps) \<Rightarrow> map_of ps k | _ \<Rightarrow> None)"

text \<open>\<^verbatim>\<open>String.prototype.isWellFormed\<close>: no surrogate stands without its partner.\<close>


fun isWellFormed :: "jstring \<Rightarrow> bool" where
  "isWellFormed [] = True"
| "isWellFormed (c # cs) =
     (if is_leading_surrogate c then
        (case cs of [] \<Rightarrow> False | d # ds \<Rightarrow> is_trailing_surrogate d \<and> isWellFormed ds)
      else if is_trailing_surrogate c then False
      else isWellFormed cs)"

text \<open>
  The arguments \<^verbatim>\<open>encodeURIComponent\<close> accepts: a value whose string form exists and is
  well formed; an object all of whose keys and values are such.
\<close>

definition encodable :: "jsval \<Rightarrow> bool" where
  "encodable v = (case ToString v of Inl e \<Rightarrow> False | Inr s \<Rightarrow> isWellFormed s)"

definition encodable_props :: "props \<Rightarrow> bool" where
  "encodable_props ps = list_all (\<lambda>(k, v). isWellFormed k \<and> encodable v) ps"

text \<open>
  \<open>encoded_pair (k, v) (k', v')\<close>: the key \<open>k'\<close> is the percent-encoding of \<open>k\<close> and the
  value \<open>v'\<close> is the string that is the percent-encoding of \<open>v\<close>.
\<close>

definition encoded_pair :: "jstring \<times> jsval \<Rightarrow> jstring \<times> jsval \<Rightarrow> bool" where
  "encoded_pair kv kv' =
     (encodeURIComponent (JStr (fst kv)) = Inr (fst kv') \<and>
      (case encodeURIComponent (snd kv) of Inl e \<Rightarrow> False | Inr s \<Rightarrow> snd kv' = JStr s))"

section \<open>Percent-encoding is injective, and defined on well-formed strings\<close>

lemma unat_hexdigit: "d < 16 \<Longrightarrow> unat (hexdigit d) = (if d < 10 then 48 + d else 55 + d)"
proof -
  assume d: "d < 16"
  have "unat (word_of_nat (48 + d) :: 16 word) = 48 + d" "unat (word_of_nat (55 + d) :: 16 word) = 55 + d"
    using d by (simp_all only: unat_of_nat) simp_all
  then show ?thesis by (simp only: hexdigit_def split: if_splits) simp
qed

lemma hexdigit_inj: "a < 16 \<Longrightarrow> b < 16 \<Longrightarrow> hexdigit a = hexdigit b \<Longrightarrow> a = b"
proof -
  assume a: "a < 16" and b: "b < 16" and eq: "hexdigit a = hexdigit b"
  from eq have "unat (hexdigit a) = unat (hexdigit b)" by simp
  with a b show "a = b" by (simp add: unat_hexdigit split: if_splits)
qed

lemma percent_inj: "a < 256 \<Longrightarrow> b < 256 \<Longrightarrow> percent a = percent b \<Longrightarrow> a = b"
proof -
  assume a: "a < 256" and b: "b < 256" and eq: "percent a = percent b"
  have "a div 16 < 16" "b div 16 < 16" "a mod 16 < 16" "b mod 16 < 16" using a b by simp_all
  moreover from eq have "hexdigit (a div 16) = hexdigit (b div 16)" "hexdigit (a mod 16) = hexdigit (b mod 16)"
    by (simp_all add: percent_def)
  ultimately have "a div 16 = b div 16" "a mod 16 = b mod 16"
    by (blast intro: hexdigit_inj)+
  then show "a = b" by (metis div_mult_mod_eq)
qed

lemma length_percent: "length (percent b) = 3"
  by (simp add: percent_def)

lemma concat_percent_inj:
  "\<forall>b \<in> set bs. b < 256 \<Longrightarrow> \<forall>b \<in> set cs. b < 256 \<Longrightarrow> length bs = length cs \<Longrightarrow>
   concat (map percent bs) @ r = concat (map percent cs) @ s \<Longrightarrow> bs = cs \<and> r = s"
proof (induction bs arbitrary: cs)
  case Nil
  then show ?case by simp
next
  case (Cons b bs)
  then obtain c cs' where cs: "cs = c # cs'" by (cases cs) auto
  from Cons.prems(4) have "percent b @ (concat (map percent bs) @ r) = percent c @ (concat (map percent cs') @ s)"
    by (simp add: cs)
  then have "percent b = percent c" and rest: "concat (map percent bs) @ r = concat (map percent cs') @ s"
    by (simp_all add: length_percent)
  have "b < 256" "c < 256" using Cons.prems(1,2) by (simp_all add: cs)
  then have "b = c" using \<open>percent b = percent c\<close> by (rule percent_inj)
  moreover have "bs = cs' \<and> r = s"
    using Cons.IH [of cs'] Cons.prems rest by (simp add: cs)
  ultimately show ?case by (simp add: cs)
qed

lemma utf8_bytes: "cp < 0x110000 \<Longrightarrow> \<forall>b \<in> set (utf8 cp). b < 256"
  by (simp add: utf8_def) arith

lemma utf8_nonempty: "utf8 cp \<noteq> []"
  by (simp add: utf8_def)

lemma utf8_length_hd:
  "cp < 0x110000 \<Longrightarrow> cq < 0x110000 \<Longrightarrow> hd (utf8 cp) = hd (utf8 cq) \<Longrightarrow>
   length (utf8 cp) = length (utf8 cq)"
  by (simp add: utf8_def split: if_splits)

lemma split64: "(a::nat) div 64 = b div 64 \<Longrightarrow> a mod 64 = b mod 64 \<Longrightarrow> a = b"
  by (metis div_mult_mod_eq)

lemma div4096: "(a::nat) div 4096 = a div 64 div 64"
  by (simp add: div_mult2_eq [symmetric])

lemma div262144: "(a::nat) div 262144 = a div 64 div 64 div 64"
  by (simp add: div_mult2_eq [symmetric])

lemma utf8_inj:
  assumes "utf8 cp = utf8 cq" shows "cp = cq"
proof -
  have len: "length (utf8 cp) = length (utf8 cq)" using assms by simp
  consider (one) "cp < 0x80" | (two) "0x80 \<le> cp" "cp < 0x800"
    | (three) "0x800 \<le> cp" "cp < 0x10000" | (four) "0x10000 \<le> cp"
    by linarith
  then show ?thesis
  proof cases
    case one
    then have "cq < 0x80" using len by (simp add: utf8_def split: if_splits)
    with one assms show ?thesis by (simp add: utf8_def)
  next
    case two
    then have "0x80 \<le> cq \<and> cq < 0x800" using len by (simp add: utf8_def split: if_splits)
    with two assms have "cp div 64 = cq div 64" "cp mod 64 = cq mod 64"
      by (simp_all add: utf8_def)
    then show ?thesis by (rule split64)
  next
    case three
    then have "0x800 \<le> cq \<and> cq < 0x10000" using len by (simp add: utf8_def split: if_splits)
    with three assms have "cp div 64 div 64 = cq div 64 div 64" "cp div 64 mod 64 = cq div 64 mod 64"
      "cp mod 64 = cq mod 64"
      by (simp_all add: utf8_def div4096)
    then show ?thesis by (blast intro: split64)
  next
    case four
    then have "0x10000 \<le> cq" using len by (simp add: utf8_def split: if_splits)
    with four assms have "cp div 64 div 64 div 64 = cq div 64 div 64 div 64"
      "cp div 64 div 64 mod 64 = cq div 64 div 64 mod 64"
      "cp div 64 mod 64 = cq div 64 mod 64" "cp mod 64 = cq mod 64"
      by (simp_all add: utf8_def div4096 div262144)
    then show ?thesis by (blast intro: split64)
  qed
qed

lemma escape_inj:
  assumes "cp < 0x110000" and "cq < 0x110000" and "escape cp @ r = escape cq @ s"
  shows "cp = cq \<and> r = s"
proof -
  obtain b bs where b: "utf8 cp = b # bs" using utf8_nonempty [of cp] by (cases "utf8 cp") auto
  obtain c cs where c: "utf8 cq = c # cs" using utf8_nonempty [of cq] by (cases "utf8 cq") auto
  have lt: "b < 256" "c < 256"
    using utf8_bytes [OF assms(1)] utf8_bytes [OF assms(2)] by (simp_all add: b c)
  from assms(3) have "percent b = percent c"
    by (simp add: escape_def b c length_percent)
  with lt have "b = c" by (rule percent_inj)
  then have "hd (utf8 cp) = hd (utf8 cq)" by (simp add: b c)
  then have "length (utf8 cp) = length (utf8 cq)"
    using assms(1,2) by (rule utf8_length_hd [rotated 2])
  then have "utf8 cp = utf8 cq \<and> r = s"
    using concat_percent_inj [of "utf8 cp" "utf8 cq" r s]
      utf8_bytes [OF assms(1)] utf8_bytes [OF assms(2)] assms(3)
    by (simp add: escape_def)
  then show ?thesis by (blast dest: utf8_inj)
qed

lemma escape_head: "\<exists>t. escape cp = 0x25 # t"
  using utf8_nonempty [of cp] by (cases "utf8 cp") (simp_all add: escape_def percent_def)

lemma percent_not_unescaped: "\<not> uriUnescaped 0x25"
  by (simp add: uriUnescaped_def)


lemma pair_bounds:
  assumes "is_leading_surrogate c" and "is_trailing_surrogate d"
  shows "0x10000 \<le> UTF16SurrogatePairToCodePoint c d"
    and "UTF16SurrogatePairToCodePoint c d < 0x110000"
  using assms
  by (simp_all add: is_leading_surrogate_def is_trailing_surrogate_def
        UTF16SurrogatePairToCodePoint_def word_le_nat_alt) arith

lemma base1024:
  assumes "b < 1024" and "b' < 1024" and "a * 1024 + b = a' * 1024 + b'"
  shows "a = a' \<and> b = (b'::nat)"
proof -
  have "(a * 1024 + b) div 1024 = a" "(a' * 1024 + b') div 1024 = a'"
    using assms(1,2) by simp_all
  then have "a = a'" using assms(3) by simp
  then show ?thesis using assms(3) by simp
qed

lemma pair_inj:
  assumes "is_leading_surrogate c" and "is_trailing_surrogate d"
    and "is_leading_surrogate c'" and "is_trailing_surrogate d'"
    and "UTF16SurrogatePairToCodePoint c d = UTF16SurrogatePairToCodePoint c' d'"
  shows "c = c' \<and> d = d'"
proof -
  have c: "0xD800 \<le> unat c" "0xD800 \<le> unat c'"
    using assms(1,3) by (simp_all add: is_leading_surrogate_def word_le_nat_alt)
  have d: "0xDC00 \<le> unat d" "unat d - 0xDC00 < 1024" "0xDC00 \<le> unat d'" "unat d' - 0xDC00 < 1024"
    using assms(2,4) by (simp_all add: is_trailing_surrogate_def word_le_nat_alt) linarith+
  have "(unat c - 0xD800) * 1024 + (unat d - 0xDC00) = (unat c' - 0xD800) * 1024 + (unat d' - 0xDC00)"
    using assms(5) by (simp add: UTF16SurrogatePairToCodePoint_def)
  with d(2,4) have "unat c - 0xD800 = unat c' - 0xD800 \<and> unat d - 0xDC00 = unat d' - 0xDC00"
    by (rule base1024)
  with c d(1,3) have "unat c = unat c' \<and> unat d = unat d'" by linarith
  then show ?thesis by (simp add: word_unat_eq_iff)
qed

lemma unit_bound: "unat (c :: 16 word) < 0x10000"
  using unsigned_less [of c, where 'a = nat] by simp

lemma Encode_Cons_Inr:
  assumes "Encode (c # cs) = Inr r"
  obtains (plain) r' where "uriUnescaped c" "Encode cs = Inr r'" "r = c # r'"
  | (single) r' where "\<not> uriUnescaped c" "Encode cs = Inr r'" "r = escape (unat c) @ r'"
  | (pair) d ds r' where "\<not> uriUnescaped c" "is_leading_surrogate c" "cs = d # ds"
      "is_trailing_surrogate d" "Encode ds = Inr r'"
      "r = escape (UTF16SurrogatePairToCodePoint c d) @ r'"
  using assms unfolding Encode.simps(2)
  by (auto simp del: Encode.simps split: if_splits sum.splits list.splits)

lemma Encode_Nil_iff: "Encode xs = Inr [] \<longleftrightarrow> xs = []"
proof
  assume e: "Encode xs = Inr []"
  show "xs = []"
  proof (cases xs)
    case (Cons c cs)
    from e [unfolded Cons] show ?thesis
    proof (cases rule: Encode_Cons_Inr)
      case (single r')
      then show ?thesis using escape_head [of "unat c"] by auto
    next
      case (pair d ds r')
      then show ?thesis using escape_head [of "UTF16SurrogatePairToCodePoint c d"] by auto
    qed simp
  qed simp
qed simp


lemma escape_not_unescaped: "uriUnescaped c \<Longrightarrow> c # r = escape cp @ s \<Longrightarrow> False"
  using escape_head [of cp] percent_not_unescaped by auto

lemma Encode_inj: "Encode xs = Inr r \<Longrightarrow> Encode ys = Inr r \<Longrightarrow> xs = ys"
proof (induction xs arbitrary: ys r rule: length_induct)
  case (1 xs)
  show ?case
  proof (cases xs)
    case Nil
    with "1.prems" show ?thesis by (simp add: Encode_Nil_iff)
  next
    case (Cons c cs)
    have "ys \<noteq> []"
      using "1.prems" Cons Encode_Nil_iff [of xs] by auto
    then obtain c' cs' where ys: "ys = c' # cs'" by (cases ys) auto
    have IH: "\<And>zs zs' t. length zs < length xs \<Longrightarrow> Encode zs = Inr t \<Longrightarrow> Encode zs' = Inr t
               \<Longrightarrow> zs = zs'"
      using "1.IH" by blast
    from "1.prems"(1) [unfolded Cons] show ?thesis
    proof (cases rule: Encode_Cons_Inr)
      case (plain r1)
      note x = this
      from "1.prems"(2) [unfolded ys] show ?thesis
      proof (cases rule: Encode_Cons_Inr)
        case (plain r2)
        with x have "c = c'" "Encode cs = Inr r1" "Encode cs' = Inr r1" by simp_all
        with IH [of cs r1 cs'] show ?thesis by (simp add: Cons ys)
      next
        case (single r2)
        with x show ?thesis using escape_not_unescaped [of c r1] by blast
      next
        case (pair d ds r2)
        with x show ?thesis using escape_not_unescaped [of c r1] by blast
      qed
    next
      case (single r1)
      note x = this
      from "1.prems"(2) [unfolded ys] show ?thesis
      proof (cases rule: Encode_Cons_Inr)
        case (plain r2)
        with x show ?thesis using escape_not_unescaped [of c' r2] by metis
      next
        case (single r2)
        with x have "escape (unat c) @ r1 = escape (unat c') @ r2" by simp
        then have "unat c = unat c' \<and> r1 = r2"
          using unit_bound [of c] unit_bound [of c'] by (intro escape_inj) simp_all
        then have "c = c'" "Encode cs = Inr r1" "Encode cs' = Inr r1"
          using x single by (simp_all add: word_unat_eq_iff)
        with IH [of cs r1 cs'] show ?thesis by (simp add: Cons ys)
      next
        case (pair d ds r2)
        with x have "escape (unat c) @ r1 = escape (UTF16SurrogatePairToCodePoint c' d) @ r2"
          by simp
        then have "unat c = UTF16SurrogatePairToCodePoint c' d \<and> r1 = r2"
          using unit_bound [of c] pair_bounds(2) [OF pair(2,4)] by (intro escape_inj) simp_all
        then show ?thesis using unit_bound [of c] pair_bounds(1) [OF pair(2,4)] by simp
      qed
    next
      case (pair d ds r1)
      note x = this
      from "1.prems"(2) [unfolded ys] show ?thesis
      proof (cases rule: Encode_Cons_Inr)
        case (plain r2)
        with x show ?thesis using escape_not_unescaped [of c' r2] by metis
      next
        case (single r2)
        with x have "escape (UTF16SurrogatePairToCodePoint c d) @ r1 = escape (unat c') @ r2"
          by simp
        then have "UTF16SurrogatePairToCodePoint c d = unat c' \<and> r1 = r2"
          using unit_bound [of c'] pair_bounds(2) [OF x(2,4)] by (intro escape_inj) simp_all
        then show ?thesis using unit_bound [of c'] pair_bounds(1) [OF x(2,4)] by simp
      next
        case (pair d' ds' r2)
        with x have "escape (UTF16SurrogatePairToCodePoint c d) @ r1 =
                     escape (UTF16SurrogatePairToCodePoint c' d') @ r2"
          by simp
        then have eq: "UTF16SurrogatePairToCodePoint c d = UTF16SurrogatePairToCodePoint c' d' \<and> r1 = r2"
          using pair_bounds(2) [OF x(2,4)] pair_bounds(2) [OF pair(2,4)]
          by (intro escape_inj) simp_all
        then have "c = c' \<and> d = d'"
          using pair_inj [OF x(2,4) pair(2,4)] by simp
        moreover have "ds = ds'"
          using IH [of ds r1 ds'] x pair eq by (simp add: Cons)
        ultimately show ?thesis using x pair by (simp add: Cons ys)
      qed
    qed
  qed
qed

lemma surrogates_disjoint: "is_leading_surrogate c \<Longrightarrow> \<not> is_trailing_surrogate c"
  by (simp add: is_leading_surrogate_def is_trailing_surrogate_def word_le_nat_alt)

lemma surrogate_escaped:
  "is_leading_surrogate c \<or> is_trailing_surrogate c \<Longrightarrow> \<not> uriUnescaped c"
  by (auto simp: is_leading_surrogate_def is_trailing_surrogate_def uriUnescaped_def
      word_le_nat_alt)

lemma Encode_isWellFormed: "(\<exists>r. Encode s = Inr r) \<longleftrightarrow> isWellFormed s"
proof (induction s rule: isWellFormed.induct)
  case 1
  then show ?case by simp
next
  case (2 c cs)
  show ?case
  proof (cases "is_leading_surrogate c")
    case True
    note lead = this
    then have nt: "\<not> is_trailing_surrogate c" and esc: "\<not> uriUnescaped c"
      by (simp_all add: surrogates_disjoint surrogate_escaped)
    show ?thesis
    proof (cases cs)
      case Nil
      then show ?thesis using lead nt esc by simp
    next
      case (Cons d ds)
      then show ?thesis using lead nt esc "2.IH"(1) [OF lead Cons]
        by (auto split: sum.splits)
    qed
  next
    case False
    note nl = this
    show ?thesis
    proof (cases "is_trailing_surrogate c")
      case True
      then show ?thesis using nl surrogate_escaped [of c] by simp
    next
      case False
      then show ?thesis using nl "2.IH"(2) [OF nl False]
        by (auto split: sum.splits)
    qed
  qed
qed

section \<open>Properties of objects\<close>

lemma insert_index_last:
  "\<forall>k' \<in> set (map fst ps). key_before k' k \<Longrightarrow> array_index k = Some i \<Longrightarrow>
   insert_index i k v ps = ps @ [(k, v)]"
  by (induction ps) (auto simp: key_before_def split: option.splits)

lemma set_property_last:
  "k \<notin> set (map fst ps) \<Longrightarrow> \<forall>k' \<in> set (map fst ps). key_before k' k \<Longrightarrow>
   set_property k v ps = ps @ [(k, v)]"
  by (simp add: set_property_def insert_index_last split: option.splits)

lemma fold_set_property_wf:
  "wf_props (acc @ ps) \<Longrightarrow> fold (\<lambda>(k, v). set_property k v) ps acc = acc @ ps"
proof (induction ps arbitrary: acc)
  case Nil
  then show ?case by simp
next
  case (Cons p ps)
  obtain k v where p: "p = (k, v)" by (cases p)
  have "set_property k v acc = acc @ [(k, v)]"
    using Cons.prems by (intro set_property_last) (auto simp: wf_props_def p sorted_wrt_append)
  moreover have "wf_props ((acc @ [(k, v)]) @ ps)"
    using Cons.prems by (simp add: p)
  ultimately show ?case using Cons.IH [of "acc @ [(k, v)]"] by (simp add: p)
qed

lemma Object_fromEntries_wf: "wf_props ps \<Longrightarrow> Object_fromEntries ps = ps"
  using fold_set_property_wf [of "[]" ps] by (simp add: Object_fromEntries_def)

lemma map_of_overwrite:
  "map_of (overwrite k v ps) x =
     (if x = k \<and> k \<in> set (map fst ps) then Some v else map_of ps x)"
  by (induction ps) (auto simp: rev_image_eqI)

lemma map_of_insert_index:
  "k \<notin> set (map fst ps) \<Longrightarrow>
   map_of (insert_index i k v ps) x = (if x = k then Some v else map_of ps x)"
  by (induction ps) (auto split: option.splits)

lemma map_of_set_property:
  "map_of (set_property k v ps) x = (if x = k then Some v else map_of ps x)"
proof (cases "k \<in> set (map fst ps)")
  case True
  then show ?thesis by (simp add: set_property_def map_of_overwrite)
next
  case False
  then have none: "map_of ps k = None" by (simp add: map_of_eq_None_iff)
  show ?thesis
  proof (cases "array_index k")
    case None
    then show ?thesis using False none
      by (simp add: set_property_def map_add_def split: option.splits)
  next
    case (Some i)
    then show ?thesis using False by (simp add: set_property_def map_of_insert_index)
  qed
qed

lemma map_of_fold_set_property:
  "distinct (map fst es) \<Longrightarrow> (k, v) \<in> set es \<Longrightarrow>
   map_of (fold (\<lambda>(k, v). set_property k v) es acc) k = Some v"
proof (induction es arbitrary: acc)
  case Nil
  then show ?case by simp
next
  case (Cons e es)
  obtain k' v' where e: "e = (k', v')" by (cases e)
  show ?case
  proof (cases "(k, v) \<in> set es")
    case True
    then show ?thesis using Cons by (simp add: e)
  next
    case False
    then have kv: "k' = k" "v' = v" using Cons.prems(2) by (simp_all add: e)
    have notin: "k \<notin> set (map fst es)" using Cons.prems(1) by (simp add: e kv)
    have keep: "\<And>acc. k \<notin> set (map fst es) \<Longrightarrow>
        map_of (fold (\<lambda>(k, v). set_property k v) es acc) k = map_of acc k"
    proof -
      fix acc show "k \<notin> set (map fst es) \<Longrightarrow>
        map_of (fold (\<lambda>(k, v). set_property k v) es acc) k = map_of acc k"
        by (induction es arbitrary: acc) (auto simp: map_of_set_property)
    qed
    show ?thesis using keep [OF notin] by (simp add: e kv map_of_set_property)
  qed
qed

lemma values_overwrite: "snd ` set (overwrite k v ps) \<subseteq> insert v (snd ` set ps)"
  by (induction ps) (fastforce split: if_splits)+

lemma values_insert_index: "snd ` set (insert_index i k v ps) \<subseteq> insert v (snd ` set ps)"
  by (induction ps) (fastforce split: option.splits if_splits)+

lemma values_set_property: "snd ` set (set_property k v ps) \<subseteq> insert v (snd ` set ps)"
  using values_overwrite [of k v ps] values_insert_index [of _ k v ps]
  by (auto simp: set_property_def split: option.splits)

lemma values_fold_set_property:
  "snd ` set (fold (\<lambda>(k, v). set_property k v) es acc) \<subseteq> snd ` set es \<union> snd ` set acc"
proof (induction es arbitrary: acc)
  case Nil
  then show ?case by simp
next
  case (Cons e es)
  obtain k v where e: "e = (k, v)" by (cases e)
  show ?case
    using Cons.IH [of "set_property k v acc"] values_set_property [of k v acc]
    by (auto simp: e)
qed

section \<open>The request data\<close>

lemma literal_keys:
  "array_index (js ''updates'') = None" "array_index (js ''note'') = None"
  "array_index (js ''attributes'') = None" "array_index (js ''line'') = None"
  "array_index (js ''id'') = None" "array_index (js ''quantity'') = None"
  "array_index (js ''properties'') = None" "array_index (js ''selling_plan'') = None"
  by (simp_all add: array_index_def js_def is_digit_def)

lemma js_eq_iff [simp]: "js a = js b \<longleftrightarrow> a = b"
proof -
  have "inj (\<lambda>c. word_of_nat (of_char c) :: 16 word)"
  proof (rule injI)
    fix c d :: char
    assume "(word_of_nat (of_char c) :: 16 word) = word_of_nat (of_char d)"
    then have "take_bit 16 (of_char c :: nat) = take_bit 16 (of_char d :: nat)"
      by (simp add: word_of_nat_eq_iff)
    moreover have "(of_char c :: nat) < 2 ^ 16" "(of_char d :: nat) < 2 ^ 16"
      by (rule less_trans [OF nat_of_char_less_256], simp)+
    ultimately have "(of_char c :: nat) = of_char d"
      by (simp add: take_bit_nat_eq_self)
    then show "c = d" by simp
  qed
  then show ?thesis by (simp add: js_def)
qed

lemma own_properties_falsy: "\<not> ToBoolean v \<Longrightarrow> own_properties v = []"
  by (cases v) simp_all

lemma spread_append:
  "own_properties v = [(k, x)] \<Longrightarrow> array_index k = None \<Longrightarrow> k \<notin> set (map fst ps) \<Longrightarrow>
   spread v ps = ps @ own_properties v"
  by (simp add: spread_def set_property_def)

lemma spread_nothing: "own_properties v = [] \<Longrightarrow> spread v ps = ps @ own_properties v"
  by (simp add: spread_def)

lemma updatesPayload_Inr:
  "updatesPayload updates u = Inr up \<Longrightarrow> \<exists>X. own_properties up = [(js ''updates'', X)]"
  by (auto simp: updatesPayload_def split: if_splits sum.splits)

lemma note_part_Inr:
  "note_part note = Inr np \<Longrightarrow>
   (\<not> ToBoolean note \<and> own_properties np = []) \<or>
   (ToBoolean note \<and> (\<exists>n. encodeURIComponent note = Inr n \<and>
      own_properties np = [(js ''note'', JStr n)]))"
  by (auto simp: note_part_def own_properties_falsy split: if_splits sum.splits)

lemma encoded_part_Inr:
  "encoded_part name obj = Inr part \<Longrightarrow>
   (own_properties obj = [] \<and> own_properties part = []) \<or>
   (own_properties obj \<noteq> [] \<and> (\<exists>es'. encode_entries (own_properties obj) = Inr es' \<and>
      own_properties part = [(name, JObj (Object_fromEntries es'))]))"
  by (auto simp: encoded_part_def Object_keys_def Object_entries_def split: if_splits sum.splits)

lemma updateCart_requestData_Inr:
  assumes "updateCart_requestData updates useLineNumbers note attributes = Inr d"
  shows "\<exists>up np ap.
     updatesPayload updates (default_param (JBool False) useLineNumbers) = Inr up \<and>
     note_part (default_param (JStr []) note) = Inr np \<and>
     encoded_part (js ''attributes'') (default_param (JObj []) attributes) = Inr ap \<and>
     d = JObj (own_properties up @ own_properties np @ own_properties ap)"
proof -
  let ?u = "default_param (JBool False) useLineNumbers"
  let ?n = "default_param (JStr []) note"
  let ?a = "default_param (JObj []) attributes"
  from assms obtain up np ap where
    up: "updatesPayload updates ?u = Inr up" and np: "note_part ?n = Inr np"
    and ap: "encoded_part (js ''attributes'') ?a = Inr ap"
    and d: "d = JObj (spread ap (spread np (spread up [])))"
    by (auto simp: updateCart_requestData_def Let_def split: sum.splits)
  from updatesPayload_Inr [OF up] obtain X where X: "own_properties up = [(js ''updates'', X)]" ..
  have 1: "spread up [] = own_properties up"
    using spread_append [of up "js ''updates''" X "[]"] X by (simp add: literal_keys)
  have 2: "spread np (spread up []) = own_properties up @ own_properties np"
    using note_part_Inr [OF np] TrueI
    by (auto simp: 1 X spread_nothing spread_append literal_keys)
  have 3: "spread ap (spread np (spread up [])) =
      own_properties up @ own_properties np @ own_properties ap"
    using encoded_part_Inr [OF ap] note_part_Inr [OF np] TrueI
    by (auto simp: 2 X spread_nothing spread_append literal_keys)
  show ?thesis using up np ap d 3 by simp
qed


lemma changeCartItem_requestData_Inr:
  assumes "changeCartItem_requestData lineOrId quantity useLine properties sellingPlan = Inr d"
  shows "\<exists>pp.
     encoded_part (js ''properties'') (default_param (JObj []) properties) = Inr pp \<and>
     d = JObj ((if ToBoolean (default_param (JBool False) useLine) then js ''line'' else js ''id'',
                lineOrId) #
               (js ''quantity'', quantity) # own_properties pp @
               own_properties (selling_plan_part (default_param JNull sellingPlan)))"
proof -
  let ?key = "if ToBoolean (default_param (JBool False) useLine) then js ''line'' else js ''id''"
  let ?sp = "selling_plan_part (default_param JNull sellingPlan)"
  from assms obtain pp where
    pp: "encoded_part (js ''properties'') (default_param (JObj []) properties) = Inr pp"
    and d: "d = JObj (spread ?sp (spread pp (set_property (js ''quantity'') quantity
                  (spread (JObj [(?key, lineOrId)]) []))))"
    by (auto simp: changeCartItem_requestData_def Let_def split: sum.splits if_splits)
  have 1: "set_property (js ''quantity'') quantity (spread (JObj [(?key, lineOrId)]) []) =
      [(?key, lineOrId), (js ''quantity'', quantity)]"
    using TrueI
    by (simp add: spread_def set_property_def literal_keys)
  have sp: "own_properties ?sp = [] \<or>
      own_properties ?sp = [(js ''selling_plan'', default_param JNull sellingPlan)]"
    by (simp add: selling_plan_part_def own_properties_falsy)
  have 2: "spread pp [(?key, lineOrId), (js ''quantity'', quantity)] =
      [(?key, lineOrId), (js ''quantity'', quantity)] @ own_properties pp"
    using encoded_part_Inr [OF pp] TrueI
    by (auto simp: spread_nothing spread_append literal_keys)
  have 3: "spread ?sp ([(?key, lineOrId), (js ''quantity'', quantity)] @ own_properties pp) =
      ([(?key, lineOrId), (js ''quantity'', quantity)] @ own_properties pp) @ own_properties ?sp"
    using sp encoded_part_Inr [OF pp] TrueI
    by (auto simp: spread_nothing spread_append literal_keys)
  show ?thesis using pp d by (simp only: 1 2 3) simp
qed

lemma map_of_stringified:
  "distinct (map fst ps) \<Longrightarrow>
   map_of (concat (map (\<lambda>(k, x). case JSON_stringify x of None \<Rightarrow> [] | Some y \<Rightarrow> [(k, y)]) ps)) k =
     (case map_of ps k of None \<Rightarrow> None | Some x \<Rightarrow> JSON_stringify x)"
proof (induction ps)
  case Nil
  then show ?case by simp
next
  case (Cons p ps)
  let ?S = "\<lambda>ps. concat (map (\<lambda>(k, x). case JSON_stringify x of None \<Rightarrow> [] | Some y \<Rightarrow> [(k, y)]) ps)"
  obtain k0 x0 where p: "p = (k0, x0)" by (cases p)
  have IH: "map_of (?S ps) k = (case map_of ps k of None \<Rightarrow> None | Some x \<Rightarrow> JSON_stringify x)"
    using Cons by simp
  have "k0 \<notin> set (map fst ps)" using Cons.prems by (simp add: p)
  then have none: "map_of ps k0 = None" by (simp add: map_of_eq_None_iff)
  show ?case
  proof (cases "k = k0")
    case True
    then show ?thesis using IH none
      by (cases "JSON_stringify x0") (simp_all add: p map_add_def)
  next
    case False
    then show ?thesis using IH
      by (cases "JSON_stringify x0") (simp_all add: p map_add_def)
  qed
qed

lemma payload_field_stringify:
  "distinct (map fst ps) \<Longrightarrow>
   payload_field (JSON_stringify (JObj ps)) k =
     (case map_of ps k of None \<Rightarrow> None | Some x \<Rightarrow> JSON_stringify x)"
  by (simp add: payload_field_def map_of_stringified)

lemma stringify_strings:
  "\<forall>v \<in> snd ` set ps. \<exists>s. v = JStr s \<Longrightarrow> JSON_stringify (JObj ps) = Some (JObj ps)"
proof -
  assume "\<forall>v \<in> snd ` set ps. \<exists>s. v = JStr s"
  then have "concat (map (\<lambda>(k, x). case JSON_stringify x of None \<Rightarrow> [] | Some y \<Rightarrow> [(k, y)]) ps) = ps"
    by (induction ps) auto
  then show ?thesis by simp
qed

lemma encode_entries_Inr:
  "encode_entries es = Inr es' \<Longrightarrow>
   list_all2 (\<lambda>(k, v) (k', v'). Encode k = Inr k' \<and>
      (\<exists>s. encodeURIComponent v = Inr s \<and> v' = JStr s)) es es'"
proof (induction es arbitrary: es')
  case Nil
  then show ?case by simp
next
  case (Cons e es)
  obtain k v where e: "e = (k, v)" by (cases e)
  from Cons.prems obtain k' s rest where
    "encodeURIComponent (JStr k) = Inr k'" "encodeURIComponent v = Inr s"
    "encode_entries es = Inr rest" "es' = (k', JStr s) # rest"
    by (auto simp: e split: sum.splits)
  then show ?case using Cons.IH [of rest] by (simp add: e encodeURIComponent_def)
qed


lemma encode_entries_value:
  "encode_entries es = Inr es' \<Longrightarrow> (k', v') \<in> set es' \<Longrightarrow> \<exists>s. v' = JStr s"
  by (induction es arbitrary: es') (auto split: sum.splits)

lemma encode_entries_values:
  "encode_entries es = Inr es' \<Longrightarrow> \<forall>v \<in> snd ` set es'. \<exists>s. v = JStr s"
  using encode_entries_value by fastforce

lemma encode_entries_Cons:
  assumes "encode_entries ((k, v) # es) = Inr es'"
  obtains k' s rest where "Encode k = Inr k'" "encodeURIComponent v = Inr s"
    "encode_entries es = Inr rest" "es' = (k', JStr s) # rest"
  using assms by (auto simp: encodeURIComponent_def split: sum.splits)

lemma encode_entries_source:
  "encode_entries es = Inr es' \<Longrightarrow> (k', v') \<in> set es' \<Longrightarrow>
   \<exists>k v. (k, v) \<in> set es \<and> Encode k = Inr k'"
proof (induction es arbitrary: es')
  case Nil
  then show ?case by simp
next
  case (Cons e es)
  obtain k v where e: "e = (k, v)" by (cases e)
  from Cons.prems(1) [unfolded e] obtain k1 s rest where
    c: "Encode k = Inr k1" "encode_entries es = Inr rest" "es' = (k1, JStr s) # rest"
    by (rule encode_entries_Cons)
  show ?case
  proof (cases "(k', v') \<in> set rest")
    case True
    from Cons.IH [OF c(2) True] show ?thesis by (auto simp: e)
  next
    case False
    then have "k' = k1" using Cons.prems(2) c(3) by simp
    then show ?thesis using c(1) by (auto simp: e)
  qed
qed

lemma encode_entries_keys_distinct:
  "encode_entries es = Inr es' \<Longrightarrow> distinct (map fst es) \<Longrightarrow> distinct (map fst es')"
proof (induction es arbitrary: es')
  case Nil
  then show ?case by simp
next
  case (Cons e es)
  obtain k v where e: "e = (k, v)" by (cases e)
  from Cons.prems(1) obtain k' s rest where
    k': "Encode k = Inr k'" and rest: "encode_entries es = Inr rest"
    and es': "es' = (k', JStr s) # rest"
    by (auto simp: e encodeURIComponent_def split: sum.splits)
  have "k' \<notin> set (map fst rest)"
  proof
    assume "k' \<in> set (map fst rest)"
    then obtain v' where "(k', v') \<in> set rest" by auto
    from encode_entries_source [OF rest this] obtain k2 v2 where
      x: "(k2, v2) \<in> set es" "Encode k2 = Inr k'" by blast
    from x(2) k' have "k2 = k" by (rule Encode_inj)
    then show False using x(1) Cons.prems(2) by (force simp: e)
  qed
  then show ?case using Cons.IH [OF rest] Cons.prems(2) by (simp add: es' e)
qed

lemma encode_entries_member:
  "encode_entries es = Inr es' \<Longrightarrow> (k, v) \<in> set es \<Longrightarrow>
   \<exists>k' s. Encode k = Inr k' \<and> encodeURIComponent v = Inr s \<and> (k', JStr s) \<in> set es'"
proof (induction es arbitrary: es')
  case Nil
  then show ?case by simp
next
  case (Cons e es)
  obtain k0 v0 where e: "e = (k0, v0)" by (cases e)
  from Cons.prems(1) [unfolded e] obtain k1 s rest where
    c: "Encode k0 = Inr k1" "encodeURIComponent v0 = Inr s" "encode_entries es = Inr rest"
      "es' = (k1, JStr s) # rest"
    by (rule encode_entries_Cons)
  show ?case
  proof (cases "(k, v) \<in> set es")
    case True
    from Cons.IH [OF c(3) True] show ?thesis by (auto simp: c(4))
  next
    case False
    then have "k = k0" "v = v0" using Cons.prems(2) by (simp_all add: e)
    then show ?thesis using c by auto
  qed
qed

lemma encoded_lookup:
  assumes "encode_entries es = Inr es'" and "distinct (map fst es)" and "(k, v) \<in> set es"
  shows "\<exists>k' s. Encode k = Inr k' \<and> encodeURIComponent v = Inr s \<and>
           map_of (Object_fromEntries es') k' = Some (JStr s)"
proof -
  from encode_entries_member [OF assms(1,3)] obtain k' s where
    ks: "Encode k = Inr k'" "encodeURIComponent v = Inr s" "(k', JStr s) \<in> set es'"
    by blast
  have "distinct (map fst es')" using assms(1,2) by (rule encode_entries_keys_distinct)
  then have "map_of (Object_fromEntries es') k' = Some (JStr s)"
    using ks(3) by (simp add: Object_fromEntries_def map_of_fold_set_property)
  with ks show ?thesis by blast
qed

lemma stringify_encoded:
  "encode_entries es = Inr es' \<Longrightarrow>
   JSON_stringify (JObj (Object_fromEntries es')) = Some (JObj (Object_fromEntries es'))"
proof -
  assume "encode_entries es = Inr es'"
  then have "\<forall>v \<in> snd ` set es'. \<exists>s. v = JStr s" by (rule encode_entries_values)
  moreover have "snd ` set (Object_fromEntries es') \<subseteq> snd ` set es'"
    using values_fold_set_property [of es' "[]"] by (simp add: Object_fromEntries_def)
  ultimately have "\<forall>v \<in> snd ` set (Object_fromEntries es'). \<exists>s. v = JStr s"
    by blast
  then show ?thesis by (rule stringify_strings)
qed

lemma updateCart_note_field:
  assumes "updateCart_requestData updates useLineNumbers note attributes = Inr d"
  shows "(ToBoolean (default_param (JStr []) note) \<longrightarrow>
           (\<exists>n. encodeURIComponent (default_param (JStr []) note) = Inr n \<and>
                payload_field (JSON_stringify d) (js ''note'') = Some (JStr n))) \<and>
         (\<not> ToBoolean (default_param (JStr []) note) \<longrightarrow>
           payload_field (JSON_stringify d) (js ''note'') = None)"
proof -
  from updateCart_requestData_Inr [OF assms] obtain up np ap where
    up: "updatesPayload updates (default_param (JBool False) useLineNumbers) = Inr up"
    and np: "note_part (default_param (JStr []) note) = Inr np"
    and ap: "encoded_part (js ''attributes'') (default_param (JObj []) attributes) = Inr ap"
    and d: "d = JObj (own_properties up @ own_properties np @ own_properties ap)"
    by blast
  from updatesPayload_Inr [OF up] obtain X where X: "own_properties up = [(js ''updates'', X)]" ..
  have dist: "distinct (map fst (own_properties up @ own_properties np @ own_properties ap))"
    using note_part_Inr [OF np] encoded_part_Inr [OF ap] by (auto simp: X)
  have look: "\<And>k. payload_field (JSON_stringify d) k =
      (case map_of (own_properties up @ own_properties np @ own_properties ap) k of
         None \<Rightarrow> None | Some x \<Rightarrow> JSON_stringify x)"
    unfolding d by (rule payload_field_stringify [OF dist])
  show ?thesis
    using note_part_Inr [OF np] encoded_part_Inr [OF ap]
    by (auto simp: look X)
qed

lemma updateCart_attributes_field:
  assumes "updateCart_requestData updates useLineNumbers note attributes = Inr d"
  shows "(own_properties (default_param (JObj []) attributes) \<noteq> [] \<longrightarrow>
           (\<exists>es'. encode_entries (own_properties (default_param (JObj []) attributes)) = Inr es' \<and>
                payload_field (JSON_stringify d) (js ''attributes'') =
                  Some (JObj (Object_fromEntries es')))) \<and>
         (own_properties (default_param (JObj []) attributes) = [] \<longrightarrow>
           payload_field (JSON_stringify d) (js ''attributes'') = None)"
proof -
  from updateCart_requestData_Inr [OF assms] obtain up np ap where
    up: "updatesPayload updates (default_param (JBool False) useLineNumbers) = Inr up"
    and np: "note_part (default_param (JStr []) note) = Inr np"
    and ap: "encoded_part (js ''attributes'') (default_param (JObj []) attributes) = Inr ap"
    and d: "d = JObj (own_properties up @ own_properties np @ own_properties ap)"
    by blast
  from updatesPayload_Inr [OF up] obtain X where X: "own_properties up = [(js ''updates'', X)]" ..
  have dist: "distinct (map fst (own_properties up @ own_properties np @ own_properties ap))"
    using note_part_Inr [OF np] encoded_part_Inr [OF ap] by (auto simp: X)
  have look: "\<And>k. payload_field (JSON_stringify d) k =
      (case map_of (own_properties up @ own_properties np @ own_properties ap) k of
         None \<Rightarrow> None | Some x \<Rightarrow> JSON_stringify x)"
    unfolding d by (rule payload_field_stringify [OF dist])
  show ?thesis
    using note_part_Inr [OF np] encoded_part_Inr [OF ap]
    by (auto simp: look X stringify_encoded simp del: JSON_stringify.simps)
qed

lemma changeCartItem_properties_field:
  assumes "changeCartItem_requestData lineOrId quantity useLine properties sellingPlan = Inr d"
  shows "(own_properties (default_param (JObj []) properties) \<noteq> [] \<longrightarrow>
           (\<exists>es'. encode_entries (own_properties (default_param (JObj []) properties)) = Inr es' \<and>
                payload_field (JSON_stringify d) (js ''properties'') =
                  Some (JObj (Object_fromEntries es')))) \<and>
         (own_properties (default_param (JObj []) properties) = [] \<longrightarrow>
           payload_field (JSON_stringify d) (js ''properties'') = None)"
proof -
  let ?sp = "selling_plan_part (default_param JNull sellingPlan)"
  let ?key = "if ToBoolean (default_param (JBool False) useLine) then js ''line'' else js ''id''"
  from changeCartItem_requestData_Inr [OF assms] obtain pp where
    pp: "encoded_part (js ''properties'') (default_param (JObj []) properties) = Inr pp"
    and d: "d = JObj ((?key, lineOrId) # (js ''quantity'', quantity) # own_properties pp @
               own_properties ?sp)"
    by blast
  have sp: "own_properties ?sp = [] \<or>
      own_properties ?sp = [(js ''selling_plan'', default_param JNull sellingPlan)]"
    by (simp add: selling_plan_part_def own_properties_falsy)
  have dist: "distinct (map fst ((?key, lineOrId) # (js ''quantity'', quantity) #
      own_properties pp @ own_properties ?sp))"
    using sp encoded_part_Inr [OF pp] by auto
  have look: "\<And>k. payload_field (JSON_stringify d) k =
      (case map_of ((?key, lineOrId) # (js ''quantity'', quantity) # own_properties pp @
               own_properties ?sp) k of
         None \<Rightarrow> None | Some x \<Rightarrow> JSON_stringify x)"
    unfolding d by (rule payload_field_stringify [OF dist])
  show ?thesis
    using sp encoded_part_Inr [OF pp]
    by (auto simp: look stringify_encoded simp del: JSON_stringify.simps)
qed

lemma changeCartItem_selling_plan_field:
  assumes "changeCartItem_requestData lineOrId quantity useLine properties sellingPlan = Inr d"
  shows "payload_field (JSON_stringify d) (js ''selling_plan'') =
           (if ToBoolean (default_param JNull sellingPlan)
            then JSON_stringify (default_param JNull sellingPlan) else None)"
proof -
  let ?sp = "selling_plan_part (default_param JNull sellingPlan)"
  let ?key = "if ToBoolean (default_param (JBool False) useLine) then js ''line'' else js ''id''"
  from changeCartItem_requestData_Inr [OF assms] obtain pp where
    pp: "encoded_part (js ''properties'') (default_param (JObj []) properties) = Inr pp"
    and d: "d = JObj ((?key, lineOrId) # (js ''quantity'', quantity) # own_properties pp @
               own_properties ?sp)"
    by blast
  have sp: "own_properties ?sp =
      (if ToBoolean (default_param JNull sellingPlan)
       then [(js ''selling_plan'', default_param JNull sellingPlan)] else [])"
    by (simp add: selling_plan_part_def own_properties_falsy)
  have dist: "distinct (map fst ((?key, lineOrId) # (js ''quantity'', quantity) #
      own_properties pp @ own_properties ?sp))"
    using sp encoded_part_Inr [OF pp] by auto
  have look: "\<And>k. payload_field (JSON_stringify d) k =
      (case map_of ((?key, lineOrId) # (js ''quantity'', quantity) # own_properties pp @
               own_properties ?sp) k of
         None \<Rightarrow> None | Some x \<Rightarrow> JSON_stringify x)"
    unfolding d by (rule payload_field_stringify [OF dist])
  show ?thesis
    using encoded_part_Inr [OF pp]
    by (auto simp: look sp simp del: JSON_stringify.simps)
qed

lemma stringify_truthy: "ToBoolean v \<Longrightarrow> JSON_stringify v \<noteq> None"
  by (cases v) simp_all

subsection \<open>Encoded objects keep their order; when building the data succeeds\<close>

lemma encodeURIComponent_JStr [simp]: "encodeURIComponent (JStr s) = Encode s"
  by (simp add: encodeURIComponent_def)

lemma encodable_iff: "encodable v \<longleftrightarrow> (\<exists>s. encodeURIComponent v = Inr s)"
  using Encode_isWellFormed by (auto simp: encodable_def encodeURIComponent_def split: sum.splits)

lemma encode_entries_succeeds:
  "encodable_props ps \<Longrightarrow> \<exists>es'. encode_entries ps = Inr es'"
proof (induction ps)
  case Nil
  then show ?case by simp
next
  case (Cons p ps)
  obtain k v where p: "p = (k, v)" by (cases p)
  from Cons.prems have "isWellFormed k" "encodable v" "encodable_props ps"
    by (simp_all add: encodable_props_def p)
  then obtain k' s es' where "Encode k = Inr k'" "encodeURIComponent v = Inr s"
    "encode_entries ps = Inr es'"
    using Cons.IH Encode_isWellFormed [of k] encodable_iff [of v] by blast
  then show ?case by (simp add: p)
qed

lemma encode_entries_encoded:
  "encode_entries es = Inr es' \<Longrightarrow> list_all2 encoded_pair es es'"
proof (induction es arbitrary: es')
  case Nil
  then show ?case by simp
next
  case (Cons e es)
  obtain k v where e: "e = (k, v)" by (cases e)
  from Cons.prems [unfolded e] obtain k' s rest where
    c: "Encode k = Inr k'" "encodeURIComponent v = Inr s" "encode_entries es = Inr rest"
      "es' = (k', JStr s) # rest"
    by (rule encode_entries_Cons)
  then show ?case using Cons.IH [of rest] by (simp add: e encoded_pair_def)
qed

lemma digit_unescaped: "is_digit c \<Longrightarrow> uriUnescaped c"
  by (simp add: is_digit_def uriUnescaped_def)

lemma Encode_digits: "list_all is_digit k \<Longrightarrow> Encode k = Inr k"
  by (induction k) (simp_all add: digit_unescaped)

lemma array_index_digits: "array_index k = Some i \<Longrightarrow> list_all is_digit k"
  by (simp add: array_index_def split: if_splits)

lemma Encode_array_index: "Encode k = Inr k' \<Longrightarrow> array_index k' = array_index k"
proof (cases "array_index k")
  case (Some i)
  assume enc: "Encode k = Inr k'"
  from Some have "Encode k = Inr k" by (intro Encode_digits array_index_digits)
  with enc show ?thesis by simp
next
  case None
  assume enc: "Encode k = Inr k'"
  show ?thesis
  proof (cases "array_index k'")
    case (Some j)
    then have "Encode k' = Inr k'" by (intro Encode_digits array_index_digits)
    with enc have "k = k'" by (rule Encode_inj)
    then show ?thesis by simp
  next
    case None': None
    with None show ?thesis by simp
  qed
qed

lemma encoded_pair_index: "encoded_pair kv kv' \<Longrightarrow> array_index (fst kv') = array_index (fst kv)"
  by (simp add: encoded_pair_def Encode_array_index)

lemma key_before_cong:
  "array_index a = array_index a' \<Longrightarrow> array_index b = array_index b' \<Longrightarrow>
   key_before a b = key_before a' b'"
  unfolding key_before_def by (erule ssubst, erule ssubst) (rule refl)

lemma list_all2_member:
  "list_all2 R xs ys \<Longrightarrow> y \<in> set ys \<Longrightarrow> \<exists>x \<in> set xs. R x y"
  by (induction rule: list_all2_induct) auto

lemma encoded_sorted:
  "list_all2 encoded_pair es es' \<Longrightarrow> sorted_wrt key_before (map fst es) \<Longrightarrow>
   sorted_wrt key_before (map fst es')"
proof (induction rule: list_all2_induct)
  case Nil
  then show ?case by simp
next
  case (Cons x xs y ys)
  have "key_before (fst y) (fst y')" if "y' \<in> set ys" for y'
  proof -
    from list_all2_member [OF Cons.hyps(2) that] obtain x' where
      x': "x' \<in> set xs" "encoded_pair x' y'" by blast
    have "key_before (fst x) (fst x')" using Cons.prems x'(1) by auto
    then show ?thesis
      using key_before_cong [OF encoded_pair_index [OF Cons.hyps(1)] encoded_pair_index [OF x'(2)]]
      by simp
  qed
  then show ?case using Cons by auto
qed

lemma encode_entries_wf:
  assumes "encode_entries es = Inr es'" and "wf_props es"
  shows "wf_props es'"
  using encode_entries_keys_distinct [OF assms(1)] encoded_sorted [OF encode_entries_encoded [OF assms(1)]]
    assms(2)
  by (simp add: wf_props_def)

lemma encoded_object:
  assumes "encode_entries es = Inr es'" and "wf_props es"
  shows "Object_fromEntries es' = es'" and "list_all2 encoded_pair es es'"
  using Object_fromEntries_wf [OF encode_entries_wf [OF assms]] encode_entries_encoded [OF assms(1)]
  by simp_all

lemma updatesPayload_succeeds:
  "(ToBoolean useLineNumbers \<longrightarrow> updates \<noteq> JUndefined \<and> updates \<noteq> JNull) \<Longrightarrow>
   \<exists>up. updatesPayload updates useLineNumbers = Inr up"
  by (simp add: updatesPayload_def Object_entries_def)

lemma note_part_succeeds: "isWellFormed note \<Longrightarrow> \<exists>np. note_part (JStr note) = Inr np"
  using Encode_isWellFormed [of "note"] by (auto simp: note_part_def)

lemma encoded_part_succeeds:
  "encodable_props ps \<Longrightarrow> \<exists>part. encoded_part name (JObj ps) = Inr part"
  using encode_entries_succeeds [of ps]
  by (auto simp: encoded_part_def Object_keys_def Object_entries_def)

lemma updateCart_requestData_succeeds:
  assumes "isWellFormed note" and "encodable_props attributes"
    and "ToBoolean (default_param (JBool False) useLineNumbers) \<longrightarrow>
           updates \<noteq> JUndefined \<and> updates \<noteq> JNull"
  shows "\<exists>d. updateCart_requestData updates useLineNumbers (JStr note) (JObj attributes) = Inr d"
proof -
  from updatesPayload_succeeds [OF assms(3)] obtain up where
    "updatesPayload updates (default_param (JBool False) useLineNumbers) = Inr up" ..
  moreover from note_part_succeeds [OF assms(1)] obtain np where
    "note_part (JStr note) = Inr np" ..
  moreover from encoded_part_succeeds [OF assms(2)] obtain ap where
    "encoded_part (js ''attributes'') (JObj attributes) = Inr ap" ..
  ultimately show ?thesis
    by (simp add: updateCart_requestData_def default_param_def)
qed

lemma changeCartItem_requestData_succeeds:
  assumes "encodable_props properties"
  shows "\<exists>d. changeCartItem_requestData lineOrId quantity useLine (JObj properties) sellingPlan =
           Inr d"
proof -
  from encoded_part_succeeds [OF assms] obtain pp where
    "encoded_part (js ''properties'') (JObj properties) = Inr pp" ..
  then show ?thesis
    by (simp add: changeCartItem_requestData_def default_param_def Let_def)
qed

section \<open>What the operations do\<close>

lemmas async_defs = fetch_def await_def try_catch_def return_def throw_def settled_def
  of_result_def log_and_rethrow_def console_error_def after_request_def

lemma fetchCart_run:
  "fetchCart net root w =
     (case net (platform w) (cart_request root) of
        (Fulfilled response, p') \<Rightarrow>
          (case json_body response of
             Fulfilled cart \<Rightarrow> (Fulfilled cart, after_request (cart_request root) p' w)
           | Rejected e \<Rightarrow>
               (Rejected e,
                console_error ''Error fetching cart:'' e (after_request (cart_request root) p' w))
           | Pending \<Rightarrow> (Pending, after_request (cart_request root) p' w))
      | (Rejected e, p') \<Rightarrow>
          (Rejected e,
           console_error ''Error fetching cart:'' e (after_request (cart_request root) p' w))
      | (Pending, p') \<Rightarrow> (Pending, after_request (cart_request root) p' w))"
  by (simp add: fetchCart_def async_defs split: prod.splits outcome.splits)



lemma clearCart_ok:
  assumes "net (platform w) (clear_request root) = (Fulfilled response, p')" and "ok response"
  shows "clearCart net root w =
    (case fetchCart net root (after_request (clear_request root) p' w) of
       (Rejected e, w') \<Rightarrow> (Rejected e, console_error ''Error clearing cart:'' e w')
     | (r, w') \<Rightarrow> (r, w'))"
  using assms
  by (simp add: clearCart_def async_defs split: prod.splits outcome.splits)

lemma updateCart_throws:
  "updateCart_requestData updates useLineNumbers note attributes = Inl e \<Longrightarrow>
   updateCart net root updates useLineNumbers note attributes w =
     (Rejected e, console_error ''Error updating cart:'' e w)"
  by (simp add: updateCart_def async_defs)

lemma updateCart_requests:
  "updateCart_requestData updates useLineNumbers note attributes = Inr d \<Longrightarrow>
   requests (snd (updateCart net root updates useLineNumbers note attributes w)) =
     requests w @ [update_request root d]"
  by (simp add: updateCart_def async_defs split: prod.splits outcome.splits)

lemma changeCartItem_throws:
  "changeCartItem_requestData lineOrId quantity useLine properties sellingPlan = Inl e \<Longrightarrow>
   changeCartItem net root lineOrId quantity useLine properties sellingPlan w =
     (Rejected e, console_error ''Error changing cart item:'' e w)"
  by (simp add: changeCartItem_def async_defs)

lemma changeCartItem_requests:
  "changeCartItem_requestData lineOrId quantity useLine properties sellingPlan = Inr d \<Longrightarrow>
   requests (snd (changeCartItem net root lineOrId quantity useLine properties sellingPlan w)) =
     requests w @ [change_request root d]"
  by (simp add: changeCartItem_def async_defs split: prod.splits outcome.splits)

text \<open>The six operations that test \<^verbatim>\<open>response.ok\<close> reject a non-success status.\<close>

lemma updateCart_non_success:
  assumes "updateCart_requestData updates useLineNumbers note attributes = Inr d"
    and "net (platform w) (update_request root d) = (Fulfilled response, p')"
    and "\<not> ok response"
  shows "updateCart net root updates useLineNumbers note attributes w =
    (Rejected (http_error response),
     console_error ''Error updating cart:'' (http_error response)
       (after_request (update_request root d) p' w))"
  using assms by (simp add: updateCart_def async_defs)

lemma changeCartItem_non_success:
  assumes "changeCartItem_requestData lineOrId quantity useLine properties sellingPlan = Inr d"
    and "net (platform w) (change_request root d) = (Fulfilled response, p')"
    and "\<not> ok response"
  shows "changeCartItem net root lineOrId quantity useLine properties sellingPlan w =
    (Rejected (http_error response),
     console_error ''Error changing cart item:'' (http_error response)
       (after_request (change_request root d) p' w))"
  using assms by (simp add: changeCartItem_def async_defs)

lemma addToCart_non_success:
  assumes "net (platform w) (add_request root items) = (Fulfilled response, p')"
    and "\<not> ok response"
  shows "addToCart net root items w =
    (Rejected (http_error response),
     console_error ''Error adding item to cart:'' (http_error response)
       (after_request (add_request root items) p' w))"
  using assms by (simp add: addToCart_def async_defs)

lemma clearCart_non_success:
  assumes "net (platform w) (clear_request root) = (Fulfilled response, p')"
    and "\<not> ok response"
  shows "clearCart net root w =
    (Rejected (http_error response),
     console_error ''Error clearing cart:'' (http_error response)
       (after_request (clear_request root) p' w))"
  using assms by (simp add: clearCart_def async_defs)

lemma prepareShippingRates_non_success:
  assumes "net (platform w) (prepare_request root) = (Fulfilled response, p')"
    and "\<not> ok response"
  shows "prepareShippingRates net root w =
    (Rejected (http_error response),
     console_error ''Error preparing shipping rates:'' (http_error response)
       (after_request (prepare_request root) p' w))"
  using assms by (simp add: prepareShippingRates_def async_defs)

lemma fetchShippingRates_non_success:
  assumes "net (platform w) (rates_request root) = (Fulfilled response, p')"
    and "\<not> ok response"
  shows "fetchShippingRates net root w =
    (Rejected (http_error response),
     console_error ''Error fetching shipping rates:'' (http_error response)
       (after_request (rates_request root) p' w))"
  using assms by (simp add: fetchShippingRates_def async_defs)

text \<open>Whenever an operation rejects, the last console line is its own, with that error.\<close>

lemma rejection_logged:
  "fst (fetchCart net root w) = Rejected e \<Longrightarrow>
     last (console (snd (fetchCart net root w))) = (''Error fetching cart:'', e)"
  "fst (updateCart net root updates useLineNumbers note attributes w) = Rejected e \<Longrightarrow>
     last (console (snd (updateCart net root updates useLineNumbers note attributes w))) =
       (''Error updating cart:'', e)"
  "fst (changeCartItem net root lineOrId quantity useLine properties sellingPlan w) = Rejected e \<Longrightarrow>
     last (console (snd (changeCartItem net root lineOrId quantity useLine properties sellingPlan w))) =
       (''Error changing cart item:'', e)"
  "fst (addToCart net root items w) = Rejected e \<Longrightarrow>
     last (console (snd (addToCart net root items w))) = (''Error adding item to cart:'', e)"
  "fst (clearCart net root w) = Rejected e \<Longrightarrow>
     last (console (snd (clearCart net root w))) = (''Error clearing cart:'', e)"
  "fst (prepareShippingRates net root w) = Rejected e \<Longrightarrow>
     last (console (snd (prepareShippingRates net root w))) =
       (''Error preparing shipping rates:'', e)"
  "fst (fetchShippingRates net root w) = Rejected e \<Longrightarrow>
     last (console (snd (fetchShippingRates net root w))) =
       (''Error fetching shipping rates:'', e)"
  by (auto simp: fetchCart_def updateCart_def changeCartItem_def addToCart_def clearCart_def
      prepareShippingRates_def fetchShippingRates_def async_defs
      split: prod.splits outcome.splits sum.splits if_splits)

lemma updateCart_sent:
  assumes "requests (snd (updateCart net root updates useLineNumbers note attributes w)) =
             requests w @ [r]"
  shows "\<exists>d. updateCart_requestData updates useLineNumbers note attributes = Inr d \<and>
             r = update_request root d"
proof (cases "updateCart_requestData updates useLineNumbers note attributes")
  case (Inl e)
  from updateCart_throws [OF Inl, of net root w] assms show ?thesis
    by (simp add: console_error_def)
next
  case (Inr d)
  from updateCart_requests [OF Inr, of net root w] assms show ?thesis
    by (simp add: Inr)
qed

lemma changeCartItem_sent:
  assumes "requests (snd (changeCartItem net root lineOrId quantity useLine properties sellingPlan w)) =
             requests w @ [r]"
  shows "\<exists>d. changeCartItem_requestData lineOrId quantity useLine properties sellingPlan = Inr d \<and>
             r = change_request root d"
proof (cases "changeCartItem_requestData lineOrId quantity useLine properties sellingPlan")
  case (Inl e)
  from changeCartItem_throws [OF Inl, of net root w] assms show ?thesis
    by (simp add: console_error_def)
next
  case (Inr d)
  from changeCartItem_requests [OF Inr, of net root w] assms show ?thesis
    by (simp add: Inr)
qed

lemma body_update_request [simp]: "body (update_request root d) = JSON_stringify d"
  by (simp add: update_request_def)

lemma body_change_request [simp]: "body (change_request root d) = JSON_stringify d"
  by (simp add: change_request_def)

subsection \<open>Worked calls\<close>

lemmas encode_eval = encodeURIComponent_def js_def uriUnescaped_def is_leading_surrogate_def
  is_trailing_surrogate_def escape_def utf8_def percent_def hexdigit_def

lemmas object_eval = Object_entries_def Object_keys_def Object_fromEntries_def set_property_def
  spread_def array_index_def is_digit_def decimal_value_def default_param_def

lemma example_line_numbers:
  "updateCart_requestData (JObj [(js ''1'', JNum 2), (js ''2'', JNum 0)]) (JBool True) (JStr [])
     (JObj []) =
   Inr (JObj [(js ''updates'', JObj [(js ''1'', JNum 2), (js ''2'', JNum 0)])])"
  by (simp add: updateCart_requestData_def updatesPayload_def note_part_def encoded_part_def
      object_eval js_def)

lemma example_gift:
  "updateCart_requestData (JObj [(js ''1'', JNum 2)]) (JBool False) (JStr (js ''gift wrap''))
     (JObj [(js ''gift to'', JStr (js ''A&B''))]) =
   Inr (JObj [(js ''updates'', JObj [(js ''1'', JNum 2)]),
              (js ''note'', JStr (js ''gift%20wrap'')),
              (js ''attributes'', JObj [(js ''gift%20to'', JStr (js ''A%26B''))])])"
  by (simp add: updateCart_requestData_def updatesPayload_def note_part_def encoded_part_def
      object_eval encode_eval)

lemma example_line:
  "changeCartItem_requestData (JNum 2) (JNum 3) (JBool True) (JObj []) JNull =
   Inr (JObj [(js ''line'', JNum 2), (js ''quantity'', JNum 3)])"
  by (simp add: changeCartItem_requestData_def selling_plan_part_def encoded_part_def
      object_eval js_def)

lemma example_engraving:
  "changeCartItem_requestData (JNum 2) (JNum 3) (JBool True)
     (JObj [(js ''engraving'', JStr (js ''J & K''))]) (JStr (js ''688'')) =
   Inr (JObj [(js ''line'', JNum 2), (js ''quantity'', JNum 3),
              (js ''properties'', JObj [(js ''engraving'', JStr (js ''J%20%26%20K''))]),
              (js ''selling_plan'', JStr (js ''688''))])"
  by (simp add: changeCartItem_requestData_def selling_plan_part_def encoded_part_def
      object_eval encode_eval)

lemma example_wf: "wf_props [(js ''1'', JNum 2), (js ''2'', JNum 0)]"
  by (simp add: wf_props_def key_before_def array_index_def is_digit_def decimal_value_def js_def)

lemma Encode_gift_wrap: "Encode (js ''gift wrap'') = Inr (js ''gift%20wrap'')"
  by (simp add: encode_eval)

lemma example_gift_sent:
  "requests (snd (updateCart scripted ''/'' (JObj [(js ''1'', JNum 2)]) (JBool False)
      (JStr (js ''gift wrap'')) (JObj [(js ''gift to'', JStr (js ''A&B''))]) (start []))) =
     [update_request ''/''
        (JObj [(js ''updates'', JObj [(js ''1'', JNum 2)]),
               (js ''note'', JStr (js ''gift%20wrap'')),
               (js ''attributes'', JObj [(js ''gift%20to'', JStr (js ''A%26B''))])])]"
  using updateCart_requests [OF example_gift, of scripted "''/''" "start []"]
  by (simp add: start_def)

lemma example_engraving_sent:
  "requests (snd (changeCartItem scripted ''/'' (JNum 2) (JNum 3) (JBool True)
      (JObj [(js ''engraving'', JStr (js ''J & K''))]) (JStr (js ''688'')) (start []))) =
     [change_request ''/''
        (JObj [(js ''line'', JNum 2), (js ''quantity'', JNum 3),
               (js ''properties'', JObj [(js ''engraving'', JStr (js ''J%20%26%20K''))]),
               (js ''selling_plan'', JStr (js ''688''))])]"
  using changeCartItem_requests [OF example_engraving, of scripted "''/''" "start []"]
  by (simp add: start_def)

lemma example_line_sent:
  "requests (snd (changeCartItem scripted ''/'' (JNum 2) (JNum 3) (JBool True) (JObj []) JNull
      (start []))) =
     [change_request ''/'' (JObj [(js ''line'', JNum 2), (js ''quantity'', JNum 3)])]"
  using changeCartItem_requests [OF example_line, of scripted "''/''" "start []"]
  by (simp add: start_def)

lemma example_line_numbers_sent:
  "requests (snd (updateCart scripted ''/'' (JObj [(js ''1'', JNum 2), (js ''2'', JNum 0)])
      (JBool True) (JStr []) (JObj []) (start []))) =
     [update_request ''/''
        (JObj [(js ''updates'', JObj [(js ''1'', JNum 2), (js ''2'', JNum 0)])])]"
  using updateCart_requests [OF example_line_numbers, of scripted "''/''" "start []"]
  by (simp add: start_def)

lemma useLineNumbers_array:
  "updatesPayload (JArr [JNum 3, JNum 1]) (JBool True) =
     Inr (JObj [(js ''updates'', JObj [(js ''0'', JNum 3), (js ''1'', JNum 1)])])"
  "updatesPayload (JArr [JNum 3, JNum 1]) (JBool False) =
     Inr (JObj [(js ''updates'', JArr [JNum 3, JNum 1])])"
  by (simp_all add: updatesPayload_def Object_entries_def Object_fromEntries_def set_property_def
      array_index_def is_digit_def decimal_value_def js_def digits.simps digit_def upt_rec)

lemma example_conversions:
  "encodeURIComponent (JNum 12) = Inr (js ''12'')"
  "encodeURIComponent (JNum (- 305)) = Inr (js ''-305'')"
  "encodeURIComponent (JArr [JNum 1, JNull, JStr (js ''a b'')]) = Inr (js ''1%2C%2Ca%20b'')"
  "encodeURIComponent (JObj [(js ''a'', JNum 1)]) = Inr (js ''%5Bobject%20Object%5D'')"
  "encodeURIComponent (JObj [(js ''toString'', JNum 1)]) = Inl not_primitive"
  "encodeURIComponent (JStr [0xD83D]) = Inl uri_malformed"
  by (simp_all add: encode_eval NumberToString_def digits.simps digit_def)

lemma example_http_error:
  "http_error (json_response 404) = Error (js ''HTTP error! status: 404'')"
  by (simp add: http_error_def json_response_def digits.simps digit_def js_def)

lemma js_Nil_iff [simp]: "js s = [] \<longleftrightarrow> s = []"
  by (simp add: js_def)

lemma example_inputs:
  "isWellFormed (js ''gift wrap'')" "isWellFormed []"
  "encodable_props [(js ''gift to'', JStr (js ''A&B''))]"
  "encodable_props [(js ''engraving'', JStr (js ''J & K''))]"
  "encodable_props []"
  "wf_props [(js ''gift to'', JStr (js ''A&B''))]"
  "wf_props [(js ''engraving'', JStr (js ''J & K''))]"
  "wf_props []"
  by (simp_all add: encodable_props_def encodable_def wf_props_def js_def
      is_leading_surrogate_def is_trailing_surrogate_def)

section \<open>The claims\<close>

text \<open>
  Claim C1. Every operation is to reject a non-success status with an error carrying that
  status and to send nothing more. The six operations that test \<^verbatim>\<open>response.ok\<close> do so
  (the lemmas \<open>updateCart_non_success\<close> to \<open>fetchShippingRates_non_success\<close>);
  \<^verbatim>\<open>fetchCart\<close> has no such test. Here the platform answers \<^verbatim>\<open>GET cart.js\<close> with
  status 404 and the body \<^verbatim>\<open>{}\<close>: \<^verbatim>\<open>fetchCart\<close> is fulfilled with that body and logs
  nothing.
\<close>

theorem fetchCart_resolves_on_404:
  "fetchCart scripted ''/'' (start [Fulfilled (json_response 404)]) =
     (Fulfilled (JObj []), \<lparr>platform = [], requests = [cart_request ''/''], console = []\<rparr>) \<and>
   \<not> ok (json_response 404)"
  by (simp add: fetchCart_run scripted_def start_def json_response_def after_request_def ok_def)



text \<open>
  Claim C3. For a well-formed note, attributes that can be encoded and updates that
  \<^verbatim>\<open>Object.entries\<close> accepts, \<^verbatim>\<open>updateCart\<close> sends exactly one request, and in its body
  the key \<^verbatim>\<open>note\<close> is present exactly when the note is not the empty string, the key
  \<^verbatim>\<open>attributes\<close> exactly when the attributes object has a property. For properties that
  can be encoded \<^verbatim>\<open>changeCartItem\<close> sends exactly one request, and in its body the key
  \<^verbatim>\<open>properties\<close> is present exactly when the properties object has a property, the key
  \<^verbatim>\<open>selling_plan\<close> exactly when the selling plan is a non-empty string, and never when
  it is \<^verbatim>\<open>null\<close>. An absent field is no key at all (\<open>payload_field\<close> is \<open>None\<close>), not
  a key with an empty value.
\<close>

theorem optional_fields_present_iff_nonempty:
  "(isWellFormed note \<and> encodable_props attributes \<and>
    (ToBoolean (default_param (JBool False) useLineNumbers) \<longrightarrow>
       updates \<noteq> JUndefined \<and> updates \<noteq> JNull) \<longrightarrow>
    (\<exists>r. requests (snd (updateCart net root updates useLineNumbers (JStr note) (JObj attributes)
               w)) = requests w @ [r] \<and>
         (payload_field (body r) (js ''note'') \<noteq> None \<longleftrightarrow> note \<noteq> []) \<and>
         (payload_field (body r) (js ''attributes'') \<noteq> None \<longleftrightarrow> attributes \<noteq> []))) \<and>
   (encodable_props properties \<longrightarrow>
    (\<exists>c. requests (snd (changeCartItem net root lineOrId quantity useLine (JObj properties)
               (JStr plan) w)) = requests w @ [c] \<and>
         (payload_field (body c) (js ''properties'') \<noteq> None \<longleftrightarrow> properties \<noteq> []) \<and>
         (payload_field (body c) (js ''selling_plan'') \<noteq> None \<longleftrightarrow> plan \<noteq> []))) \<and>
   (encodable_props properties' \<longrightarrow>
    (\<exists>c. requests (snd (changeCartItem net root lineOrId' quantity' useLine' (JObj properties')
               JNull w)) = requests w @ [c] \<and>
         (payload_field (body c) (js ''properties'') \<noteq> None \<longleftrightarrow> properties' \<noteq> []) \<and>
         payload_field (body c) (js ''selling_plan'') = None))"
proof (intro conjI impI)
  assume a: "isWellFormed note \<and> encodable_props attributes \<and>
    (ToBoolean (default_param (JBool False) useLineNumbers) \<longrightarrow>
       updates \<noteq> JUndefined \<and> updates \<noteq> JNull)"
  then obtain d where
    d: "updateCart_requestData updates useLineNumbers (JStr note) (JObj attributes) = Inr d"
    using updateCart_requestData_succeeds [of "note" attributes useLineNumbers updates] by blast
  have "requests (snd (updateCart net root updates useLineNumbers (JStr note) (JObj attributes)
               w)) = requests w @ [update_request root d]"
    using d by (rule updateCart_requests)
  moreover have "payload_field (body (update_request root d)) (js ''note'') \<noteq> None \<longleftrightarrow> note \<noteq> []"
    using updateCart_note_field [OF d] by (auto simp: default_param_def)
  moreover have "payload_field (body (update_request root d)) (js ''attributes'') \<noteq> None \<longleftrightarrow>
      attributes \<noteq> []"
    using updateCart_attributes_field [OF d] by (auto simp: default_param_def)
  ultimately show "\<exists>r. requests (snd (updateCart net root updates useLineNumbers (JStr note)
               (JObj attributes) w)) = requests w @ [r] \<and>
         (payload_field (body r) (js ''note'') \<noteq> None \<longleftrightarrow> note \<noteq> []) \<and>
         (payload_field (body r) (js ''attributes'') \<noteq> None \<longleftrightarrow> attributes \<noteq> [])"
    by blast
next
  assume a: "encodable_props properties"
  then obtain d where
    d: "changeCartItem_requestData lineOrId quantity useLine (JObj properties) (JStr plan) = Inr d"
    using changeCartItem_requestData_succeeds by blast
  have "requests (snd (changeCartItem net root lineOrId quantity useLine (JObj properties)
               (JStr plan) w)) = requests w @ [change_request root d]"
    using d by (rule changeCartItem_requests)
  moreover have "payload_field (body (change_request root d)) (js ''properties'') \<noteq> None \<longleftrightarrow>
      properties \<noteq> []"
    using changeCartItem_properties_field [OF d] by (auto simp: default_param_def)
  moreover have "payload_field (body (change_request root d)) (js ''selling_plan'') \<noteq> None \<longleftrightarrow>
      plan \<noteq> []"
    using changeCartItem_selling_plan_field [OF d] by (simp add: default_param_def)
  ultimately show "\<exists>c. requests (snd (changeCartItem net root lineOrId quantity useLine
               (JObj properties) (JStr plan) w)) = requests w @ [c] \<and>
         (payload_field (body c) (js ''properties'') \<noteq> None \<longleftrightarrow> properties \<noteq> []) \<and>
         (payload_field (body c) (js ''selling_plan'') \<noteq> None \<longleftrightarrow> plan \<noteq> [])"
    by blast
next
  assume a: "encodable_props properties'"
  then obtain d where
    d: "changeCartItem_requestData lineOrId' quantity' useLine' (JObj properties') JNull = Inr d"
    using changeCartItem_requestData_succeeds by blast
  have "requests (snd (changeCartItem net root lineOrId' quantity' useLine' (JObj properties')
               JNull w)) = requests w @ [change_request root d]"
    using d by (rule changeCartItem_requests)
  moreover have "payload_field (body (change_request root d)) (js ''properties'') \<noteq> None \<longleftrightarrow>
      properties' \<noteq> []"
    using changeCartItem_properties_field [OF d] by (auto simp: default_param_def)
  moreover have "payload_field (body (change_request root d)) (js ''selling_plan'') = None"
    using changeCartItem_selling_plan_field [OF d] by (simp add: default_param_def)
  ultimately show "\<exists>c. requests (snd (changeCartItem net root lineOrId' quantity' useLine'
               (JObj properties') JNull w)) = requests w @ [c] \<and>
         (payload_field (body c) (js ''properties'') \<noteq> None \<longleftrightarrow> properties' \<noteq> []) \<and>
         payload_field (body c) (js ''selling_plan'') = None"
    by blast
qed

theorem optional_fields_present_iff_nonempty_witness:
  "requests (snd (updateCart scripted ''/'' (JObj [(js ''1'', JNum 2)]) (JBool False)
      (JStr (js ''gift wrap'')) (JObj [(js ''gift to'', JStr (js ''A&B''))]) (start []))) =
     [update_request ''/''
        (JObj [(js ''updates'', JObj [(js ''1'', JNum 2)]),
               (js ''note'', JStr (js ''gift%20wrap'')),
               (js ''attributes'', JObj [(js ''gift%20to'', JStr (js ''A%26B''))])])] \<and>
   payload_field
     (body (update_request ''/''
        (JObj [(js ''updates'', JObj [(js ''1'', JNum 2)]),
               (js ''note'', JStr (js ''gift%20wrap'')),
               (js ''attributes'', JObj [(js ''gift%20to'', JStr (js ''A%26B''))])])))
     (js ''note'') \<noteq> None \<and>
   payload_field
     (body (update_request ''/''
        (JObj [(js ''updates'', JObj [(js ''1'', JNum 2)]),
               (js ''note'', JStr (js ''gift%20wrap'')),
               (js ''attributes'', JObj [(js ''gift%20to'', JStr (js ''A%26B''))])])))
     (js ''attributes'') \<noteq> None \<and>
   requests (snd (changeCartItem scripted ''/'' (JNum 2) (JNum 3) (JBool True)
      (JObj [(js ''engraving'', JStr (js ''J & K''))]) (JStr (js ''688'')) (start []))) =
     [change_request ''/''
        (JObj [(js ''line'', JNum 2), (js ''quantity'', JNum 3),
               (js ''properties'', JObj [(js ''engraving'', JStr (js ''J%20%26%20K''))]),
               (js ''selling_plan'', JStr (js ''688''))])] \<and>
   payload_field
     (body (change_request ''/''
        (JObj [(js ''line'', JNum 2), (js ''quantity'', JNum 3),
               (js ''properties'', JObj [(js ''engraving'', JStr (js ''J%20%26%20K''))]),
               (js ''selling_plan'', JStr (js ''688''))])))
     (js ''properties'') \<noteq> None \<and>
   payload_field
     (body (change_request ''/''
        (JObj [(js ''line'', JNum 2), (js ''quantity'', JNum 3),
               (js ''properties'', JObj [(js ''engraving'', JStr (js ''J%20%26%20K''))]),
               (js ''selling_plan'', JStr (js ''688''))])))
     (js ''selling_plan'') \<noteq> None \<and>
   requests (snd (changeCartItem scripted ''/'' (JNum 2) (JNum 3) (JBool True) (JObj []) JNull
      (start []))) =
     [change_request ''/'' (JObj [(js ''line'', JNum 2), (js ''quantity'', JNum 3)])] \<and>
   payload_field
     (body (change_request ''/'' (JObj [(js ''line'', JNum 2), (js ''quantity'', JNum 3)])))
     (js ''properties'') = None \<and>
   payload_field
     (body (change_request ''/'' (JObj [(js ''line'', JNum 2), (js ''quantity'', JNum 3)])))
     (js ''selling_plan'') = None"
  using optional_fields_present_iff_nonempty
    [where net = scripted and root = "''/''" and w = "start []"
       and updates = "JObj [(js ''1'', JNum 2)]" and useLineNumbers = "JBool False"
       and ?note = "js ''gift wrap''" and attributes = "[(js ''gift to'', JStr (js ''A&B''))]"
       and lineOrId = "JNum 2" and quantity = "JNum 3" and useLine = "JBool True"
       and properties = "[(js ''engraving'', JStr (js ''J & K''))]"
       and plan = "js ''688''"
       and lineOrId' = "JNum 2" and quantity' = "JNum 3" and useLine' = "JBool True"
       and properties' = "[]"]
    example_inputs example_gift_sent example_engraving_sent example_line_sent
  by (simp add: start_def default_param_def)

text \<open>
  Claim C4. Every operation is to log and re-raise on any failure, a non-success status
  included. Each \<^verbatim>\<open>catch\<close> block does log and re-raise what reaches it (the lemma
  \<open>rejection_logged\<close>), but in \<^verbatim>\<open>fetchCart\<close> a non-success status raises nothing: with
  status 500 and the body \<^verbatim>\<open>{}\<close> the operation is fulfilled and the console stays empty.
\<close>

theorem fetchCart_silent_on_500:
  "fst (fetchCart scripted ''/'' (start [Fulfilled (json_response 500)])) = Fulfilled (JObj []) \<and>
   console (snd (fetchCart scripted ''/'' (start [Fulfilled (json_response 500)]))) = [] \<and>
   \<not> ok (json_response 500)"
  by (simp add: fetchCart_run scripted_def start_def json_response_def after_request_def ok_def)

text \<open>
  Claim C5. For a well-formed note and an attributes object that can be encoded,
  \<^verbatim>\<open>updateCart\<close> sends exactly one request; in its body the note is
  \<^verbatim>\<open>encodeURIComponent\<close> of the note passed (no \<^verbatim>\<open>note\<close> key for the empty note), and
  the attributes object is, property by property and in the same order, the attributes
  passed with every key and every value replaced by its percent-encoding: nothing else is
  in it. The same holds of the properties that \<^verbatim>\<open>changeCartItem\<close> sends. The note
  \<^verbatim>\<open>gift wrap\<close> is sent as \<^verbatim>\<open>gift%20wrap\<close>. By \<open>encodable_iff\<close> and
  \<open>Encode_isWellFormed\<close> the hypotheses name exactly the arguments on which
  \<^verbatim>\<open>encodeURIComponent\<close> does not throw; on the others nothing is sent
  (\<open>updateCart_throws\<close>, \<open>changeCartItem_throws\<close>).
\<close>

theorem payload_values_percent_encoded:
  "(isWellFormed note \<and> wf_props attrs \<and> encodable_props attrs \<and>
    (ToBoolean (default_param (JBool False) useLineNumbers) \<longrightarrow>
       updates \<noteq> JUndefined \<and> updates \<noteq> JNull) \<longrightarrow>
    (\<exists>r. requests (snd (updateCart net root updates useLineNumbers (JStr note) (JObj attrs) w)) =
           requests w @ [r] \<and>
         (note \<noteq> [] \<longrightarrow>
           (\<exists>n. encodeURIComponent (JStr note) = Inr n \<and>
                payload_field (body r) (js ''note'') = Some (JStr n))) \<and>
         (note = [] \<longrightarrow> payload_field (body r) (js ''note'') = None) \<and>
         (attrs \<noteq> [] \<longrightarrow>
           (\<exists>obj. payload_field (body r) (js ''attributes'') = Some (JObj obj) \<and>
                list_all2 encoded_pair attrs obj)))) \<and>
   (wf_props props \<and> encodable_props props \<and> props \<noteq> [] \<longrightarrow>
    (\<exists>c obj. requests (snd (changeCartItem net root lineOrId quantity useLine (JObj props)
                   sellingPlan w)) = requests w @ [c] \<and>
         payload_field (body c) (js ''properties'') = Some (JObj obj) \<and>
         list_all2 encoded_pair props obj)) \<and>
   (encodable_props ats \<and>
    (ToBoolean (default_param (JBool False) flag) \<longrightarrow> us \<noteq> JUndefined \<and> us \<noteq> JNull) \<longrightarrow>
    (\<exists>g. requests (snd (updateCart net root us flag (JStr (js ''gift wrap'')) (JObj ats) w)) =
           requests w @ [g] \<and>
         payload_field (body g) (js ''note'') = Some (JStr (js ''gift%20wrap''))))"
proof (intro conjI impI)
  assume a: "isWellFormed note \<and> wf_props attrs \<and> encodable_props attrs \<and>
    (ToBoolean (default_param (JBool False) useLineNumbers) \<longrightarrow>
       updates \<noteq> JUndefined \<and> updates \<noteq> JNull)"
  then obtain d where
    d: "updateCart_requestData updates useLineNumbers (JStr note) (JObj attrs) = Inr d"
    using updateCart_requestData_succeeds [of "note" attrs useLineNumbers updates] by blast
  let ?r = "update_request root d"
  have sent: "requests (snd (updateCart net root updates useLineNumbers (JStr note) (JObj attrs)
               w)) = requests w @ [?r]"
    using d by (rule updateCart_requests)
  have n1: "note \<noteq> [] \<longrightarrow> (\<exists>n. encodeURIComponent (JStr note) = Inr n \<and>
                payload_field (body ?r) (js ''note'') = Some (JStr n))"
    using updateCart_note_field [OF d] by (simp add: default_param_def)
  have n2: "note = [] \<longrightarrow> payload_field (body ?r) (js ''note'') = None"
    using updateCart_note_field [OF d] by (simp add: default_param_def)
  have at: "attrs \<noteq> [] \<longrightarrow> (\<exists>obj. payload_field (body ?r) (js ''attributes'') = Some (JObj obj) \<and>
                list_all2 encoded_pair attrs obj)"
  proof
    assume "attrs \<noteq> []"
    with updateCart_attributes_field [OF d] obtain es' where
      es': "encode_entries attrs = Inr es'"
      and f: "payload_field (JSON_stringify d) (js ''attributes'') =
                Some (JObj (Object_fromEntries es'))"
      by (auto simp: default_param_def)
    from a have "wf_props attrs" by simp
    from encoded_object [OF es' this] f
    show "\<exists>obj. payload_field (body ?r) (js ''attributes'') = Some (JObj obj) \<and>
                list_all2 encoded_pair attrs obj"
      by simp
  qed
  from sent n1 n2 at
  show "\<exists>r. requests (snd (updateCart net root updates useLineNumbers (JStr note) (JObj attrs) w)) =
           requests w @ [r] \<and>
         (note \<noteq> [] \<longrightarrow>
           (\<exists>n. encodeURIComponent (JStr note) = Inr n \<and>
                payload_field (body r) (js ''note'') = Some (JStr n))) \<and>
         (note = [] \<longrightarrow> payload_field (body r) (js ''note'') = None) \<and>
         (attrs \<noteq> [] \<longrightarrow>
           (\<exists>obj. payload_field (body r) (js ''attributes'') = Some (JObj obj) \<and>
                list_all2 encoded_pair attrs obj))"
    by blast
next
  assume a: "wf_props props \<and> encodable_props props \<and> props \<noteq> []"
  then obtain d where
    d: "changeCartItem_requestData lineOrId quantity useLine (JObj props) sellingPlan = Inr d"
    using changeCartItem_requestData_succeeds by blast
  let ?c = "change_request root d"
  have sent: "requests (snd (changeCartItem net root lineOrId quantity useLine (JObj props)
                   sellingPlan w)) = requests w @ [?c]"
    using d by (rule changeCartItem_requests)
  from changeCartItem_properties_field [OF d] a obtain es' where
    es': "encode_entries props = Inr es'"
    and f: "payload_field (JSON_stringify d) (js ''properties'') =
              Some (JObj (Object_fromEntries es'))"
    by (auto simp: default_param_def)
  from a have "wf_props props" by simp
  from encoded_object [OF es' this] f
  have "payload_field (body ?c) (js ''properties'') = Some (JObj es') \<and>
      list_all2 encoded_pair props es'"
    by simp
  with sent
  show "\<exists>c obj. requests (snd (changeCartItem net root lineOrId quantity useLine (JObj props)
                   sellingPlan w)) = requests w @ [c] \<and>
         payload_field (body c) (js ''properties'') = Some (JObj obj) \<and>
         list_all2 encoded_pair props obj"
    by blast
next
  assume a: "encodable_props ats \<and>
    (ToBoolean (default_param (JBool False) flag) \<longrightarrow> us \<noteq> JUndefined \<and> us \<noteq> JNull)"
  have wf: "isWellFormed (js ''gift wrap'')"
    using Encode_isWellFormed [of "js ''gift wrap''"] by (simp add: Encode_gift_wrap)
  have ne: "js ''gift wrap'' \<noteq> []" by (simp add: js_def)
  from a wf obtain d where
    d: "updateCart_requestData us flag (JStr (js ''gift wrap'')) (JObj ats) = Inr d"
    using updateCart_requestData_succeeds [of "js ''gift wrap''" ats flag us] by blast
  have "requests (snd (updateCart net root us flag (JStr (js ''gift wrap'')) (JObj ats) w)) =
           requests w @ [update_request root d]"
    using d by (rule updateCart_requests)
  moreover have "payload_field (body (update_request root d)) (js ''note'') =
      Some (JStr (js ''gift%20wrap''))"
    using updateCart_note_field [OF d] ne
    by (simp add: default_param_def Encode_gift_wrap)
  ultimately show "\<exists>g. requests (snd (updateCart net root us flag (JStr (js ''gift wrap''))
           (JObj ats) w)) = requests w @ [g] \<and>
         payload_field (body g) (js ''note'') = Some (JStr (js ''gift%20wrap''))"
    by blast
qed

theorem payload_values_percent_encoded_witness:
  "requests (snd (updateCart scripted ''/'' (JObj [(js ''1'', JNum 2)]) (JBool False)
      (JStr (js ''gift wrap'')) (JObj [(js ''gift to'', JStr (js ''A&B''))]) (start []))) =
     [update_request ''/''
        (JObj [(js ''updates'', JObj [(js ''1'', JNum 2)]),
               (js ''note'', JStr (js ''gift%20wrap'')),
               (js ''attributes'', JObj [(js ''gift%20to'', JStr (js ''A%26B''))])])] \<and>
   payload_field
     (body (update_request ''/''
        (JObj [(js ''updates'', JObj [(js ''1'', JNum 2)]),
               (js ''note'', JStr (js ''gift%20wrap'')),
               (js ''attributes'', JObj [(js ''gift%20to'', JStr (js ''A%26B''))])])))
     (js ''note'') = Some (JStr (js ''gift%20wrap'')) \<and>
   (\<exists>obj.
      payload_field
        (body (update_request ''/''
           (JObj [(js ''updates'', JObj [(js ''1'', JNum 2)]),
                  (js ''note'', JStr (js ''gift%20wrap'')),
                  (js ''attributes'', JObj [(js ''gift%20to'', JStr (js ''A%26B''))])])))
        (js ''attributes'') = Some (JObj obj) \<and>
      list_all2 encoded_pair [(js ''gift to'', JStr (js ''A&B''))] obj) \<and>
   requests (snd (changeCartItem scripted ''/'' (JNum 2) (JNum 3) (JBool True)
      (JObj [(js ''engraving'', JStr (js ''J & K''))]) (JStr (js ''688'')) (start []))) =
     [change_request ''/''
        (JObj [(js ''line'', JNum 2), (js ''quantity'', JNum 3),
               (js ''properties'', JObj [(js ''engraving'', JStr (js ''J%20%26%20K''))]),
               (js ''selling_plan'', JStr (js ''688''))])] \<and>
   (\<exists>obj.
      payload_field
        (body (change_request ''/''
           (JObj [(js ''line'', JNum 2), (js ''quantity'', JNum 3),
                  (js ''properties'', JObj [(js ''engraving'', JStr (js ''J%20%26%20K''))]),
                  (js ''selling_plan'', JStr (js ''688''))])))
        (js ''properties'') = Some (JObj obj) \<and>
      list_all2 encoded_pair [(js ''engraving'', JStr (js ''J & K''))] obj) \<and>
   requests (snd (updateCart scripted ''/'' (JObj [(js ''1'', JNum 2), (js ''2'', JNum 0)])
      (JBool True) (JStr []) (JObj []) (start []))) =
     [update_request ''/''
        (JObj [(js ''updates'', JObj [(js ''1'', JNum 2), (js ''2'', JNum 0)])])] \<and>
   payload_field
     (body (update_request ''/''
        (JObj [(js ''updates'', JObj [(js ''1'', JNum 2), (js ''2'', JNum 0)])])))
     (js ''note'') = None"
  using payload_values_percent_encoded
    [where net = scripted and root = "''/''" and w = "start []"
       and updates = "JObj [(js ''1'', JNum 2)]" and useLineNumbers = "JBool False"
       and ?note = "js ''gift wrap''" and attrs = "[(js ''gift to'', JStr (js ''A&B''))]"
       and lineOrId = "JNum 2" and quantity = "JNum 3" and useLine = "JBool True"
       and props = "[(js ''engraving'', JStr (js ''J & K''))]"
       and sellingPlan = "JStr (js ''688'')"
       and us = "JObj [(js ''1'', JNum 2)]" and flag = "JBool False"
       and ats = "[(js ''gift to'', JStr (js ''A&B''))]"]
    payload_values_percent_encoded
    [where net = scripted and root = "''/''" and w = "start []"
       and updates = "JObj [(js ''1'', JNum 2), (js ''2'', JNum 0)]"
       and useLineNumbers = "JBool True" and ?note = "[]" and attrs = "[]"]
    example_inputs example_gift_sent example_engraving_sent example_line_numbers_sent
  by (simp add: start_def default_param_def)

text \<open>
  Claim C6. \<^verbatim>\<open>updateCart({1: 2, 2: 0}, true, '', {})\<close> sends one request, a
  \<^verbatim>\<open>POST cart/update.js\<close> whose body is exactly \<^verbatim>\<open>{updates: {1: 2, 2: 0}}\<close>: no
  \<^verbatim>\<open>note\<close> key and no \<^verbatim>\<open>attributes\<close> key.
\<close>

theorem updateCart_line_numbers_payload:
  "requests (snd (updateCart net root (JObj [(js ''1'', JNum 2), (js ''2'', JNum 0)]) (JBool True)
      (JStr []) (JObj []) w)) =
   requests w @
     [\<lparr>url = root @ ''cart/update.js'', http_method = ''POST'',
       headers = [(''Content-Type'', ''application/json'')],
       body = Some (JObj [(js ''updates'', JObj [(js ''1'', JNum 2), (js ''2'', JNum 0)])])\<rparr>]"
  using updateCart_requests [OF example_line_numbers, of net root w]
  by (simp add: update_request_def json_headers_def)

text \<open>
  Claim C7. \<^verbatim>\<open>changeCartItem(2, 3, true, {}, null)\<close> sends one request, a
  \<^verbatim>\<open>POST cart/change.js\<close> whose body is exactly \<^verbatim>\<open>{line: 2, quantity: 3}\<close>: no
  \<^verbatim>\<open>id\<close>, \<^verbatim>\<open>properties\<close> or \<^verbatim>\<open>selling_plan\<close> key.
\<close>

theorem changeCartItem_line_payload:
  "requests (snd (changeCartItem net root (JNum 2) (JNum 3) (JBool True) (JObj []) JNull w)) =
   requests w @
     [\<lparr>url = root @ ''cart/change.js'', http_method = ''POST'',
       headers = [(''Content-Type'', ''application/json'')],
       body = Some (JObj [(js ''line'', JNum 2), (js ''quantity'', JNum 3)])\<rparr>]"
  using changeCartItem_requests [OF example_line, of net root w]
  by (simp add: change_request_def json_headers_def)

text \<open>
  Claim C8. When the clear request is answered with a success status, \<^verbatim>\<open>clearCart\<close>
  settles exactly as a \<^verbatim>\<open>fetchCart\<close> run in the world right after the clear request does:
  the same cart when that is fulfilled, the same error when it is rejected.
\<close>

theorem clearCart_refetch:
  assumes "net (platform w) (clear_request root) = (Fulfilled response, p')" and "ok response"
  shows "fst (clearCart net root w) =
           fst (fetchCart net root (after_request (clear_request root) p' w))"
proof -
  let ?w1 = "after_request (clear_request root) p' w"
  have run: "clearCart net root w =
    (case fetchCart net root ?w1 of
       (Rejected e, w') \<Rightarrow> (Rejected e, console_error ''Error clearing cart:'' e w')
     | (r, w') \<Rightarrow> (r, w'))"
    using assms by (rule clearCart_ok)
  obtain r w2 where f: "fetchCart net root ?w1 = (r, w2)"
    by (cases "fetchCart net root ?w1")
  show ?thesis
    by (cases r) (simp_all add: run f)
qed

theorem clearCart_refetch_witness:
  "fst (clearCart scripted ''/'' (start [Fulfilled (json_response 200), Fulfilled cart_response])) =
     fst (fetchCart scripted ''/''
            (after_request (clear_request ''/'') [Fulfilled cart_response]
               (start [Fulfilled (json_response 200), Fulfilled cart_response]))) \<and>
   fst (clearCart scripted ''/'' (start [Fulfilled (json_response 200), Fulfilled cart_response])) =
     Fulfilled (JObj [(js ''item_count'', JNum 1)])"
  using clearCart_refetch [of scripted
      "start [Fulfilled (json_response 200), Fulfilled cart_response]" "''/''"
      "json_response 200" "[Fulfilled cart_response]"]
  by (simp add: scripted_def start_def json_response_def cart_response_def ok_def fetchCart_run
      after_request_def)

text \<open>
  Claim C9. \<^verbatim>\<open>fetchCart\<close> never looks at the status: whatever the response, when its body
  parses as JSON the operation is fulfilled with the parsed value; and it is rejected with
  an error exactly when the request is rejected with it or the parsing of the body is.
\<close>

theorem fetchCart_never_inspects_status:
  "(net (platform w) (cart_request root) = (Fulfilled response, p') \<and>
      json_body response = Fulfilled cart \<longrightarrow>
      fst (fetchCart net root w) = Fulfilled cart) \<and>
   (fst (fetchCart net root w) = Rejected e \<longleftrightarrow>
      fst (net (platform w) (cart_request root)) = Rejected e \<or>
      (\<exists>response. fst (net (platform w) (cart_request root)) = Fulfilled response \<and>
         json_body response = Rejected e))"
  by (auto simp: fetchCart_run split: prod.splits outcome.splits)

theorem fetchCart_never_inspects_status_witness:
  "\<not> ok (json_response 503) \<and>
   fst (fetchCart scripted ''/'' (start [Fulfilled (json_response 503)])) = Fulfilled (JObj [])"
  using fetchCart_never_inspects_status [of scripted "start [Fulfilled (json_response 503)]"
      "''/''" "json_response 503" "[]" "JObj []"]
  by (simp add: scripted_def start_def json_response_def ok_def)

text \<open>
  Claim C10. For every updates object (a plain object, whose properties an engine keeps
  in the order \<open>wf_props\<close> describes) \<^verbatim>\<open>updateCart\<close> builds the same request data with
  \<^verbatim>\<open>useLineNumbers\<close> true as with it false, and the whole operation runs the same. The
  lemma \<open>useLineNumbers_array\<close> records that an array, which is not such an object, is
  turned into an object by the flag.
\<close>

theorem useLineNumbers_no_effect:
  assumes "wf_props us"
  shows "updateCart_requestData (JObj us) (JBool True) note attributes =
           updateCart_requestData (JObj us) (JBool False) note attributes \<and>
         updateCart net root (JObj us) (JBool True) note attributes w =
           updateCart net root (JObj us) (JBool False) note attributes w"
proof -
  have "map (\<lambda>(lineNumber, qty). (lineNumber, qty)) us = us" by simp
  then have "updatesPayload (JObj us) (JBool True) = updatesPayload (JObj us) (JBool False)"
    using Object_fromEntries_wf [OF assms]
    by (simp add: updatesPayload_def Object_entries_def)
  then have "updateCart_requestData (JObj us) (JBool True) note attributes =
           updateCart_requestData (JObj us) (JBool False) note attributes"
    by (simp add: updateCart_requestData_def default_param_def)
  then show ?thesis by (simp add: updateCart_def)
qed

theorem useLineNumbers_no_effect_witness:
  "wf_props [(js ''1'', JNum 2), (js ''2'', JNum 0)] \<and>
   updateCart_requestData (JObj [(js ''1'', JNum 2), (js ''2'', JNum 0)]) (JBool True) (JStr [])
     (JObj []) =
   updateCart_requestData (JObj [(js ''1'', JNum 2), (js ''2'', JNum 0)]) (JBool False) (JStr [])
     (JObj []) \<and>
   updateCart_requestData (JObj [(js ''1'', JNum 2), (js ''2'', JNum 0)]) (JBool False) (JStr [])
     (JObj []) =
   Inr (JObj [(js ''updates'', JObj [(js ''1'', JNum 2), (js ''2'', JNum 0)])])"
  using useLineNumbers_no_effect [OF example_wf, of "JStr []" "JObj []" scripted "''/''" "start []"]
    example_wf example_line_numbers
  by simp

end
